theory Spec2Isabelle
  imports Complex_Main
begin

section \<open>Data model of the subscription manager\<close>

text \<open>
  The embedding follows \<^verbatim>\<open>packages/realtime/src/subscription-manager.ts\<close>.
  The class \<^verbatim>\<open>SubscriptionManager\<close> is a record of its private fields; the three
  things the class talks to (the credential function, \<^verbatim>\<open>subscribe\<close> and the stream with
  its reader) are not part of the file: whatever they answer is an input of the model.
  An \<^verbatim>\<open>async\<close> method is cut at its \<^verbatim>\<open>await\<close>s into the blocks that run without
  interruption; a task that waits at an \<^verbatim>\<open>await\<close> is a program counter, and other calls
  on the same manager may run before it is resumed. The \<^verbatim>\<open>await\<close>s are those of the
  external calls and the \<^verbatim>\<open>await this.stop()\<close> of \<^verbatim>\<open>restart\<close> (line 174), which
  yields even when \<^verbatim>\<open>stop()\<close> has run to its end. After the other \<^verbatim>\<open>await\<close>s of the
  manager's own methods (lines 131, 176 and 189) the method only returns.
\<close>

datatype SubscriptionState = Idle | Connecting | Active | Error | Closed

text \<open>A thrown JavaScript value, and how a call completes: it returns a value, or it throws
  (for an awaited promise: it resolves, or it rejects and the \<^verbatim>\<open>await\<close> throws).\<close>

datatype js_error = JsError string

datatype 'a completion = Returned 'a | Thrown js_error

datatype token = Token nat

text \<open>A message carries the \<^verbatim>\<open>topic\<close> that the read loop compares, and a payload.\<close>

datatype message = Message (msg_topic: string) (msg_v: int)

text \<open>The reader and the stream are foreign objects. Their synchronous methods
  (\<^verbatim>\<open>releaseLock\<close>, \<^verbatim>\<open>getReader\<close>) answer as the object says; the awaited ones
  (\<^verbatim>\<open>read\<close>, \<^verbatim>\<open>cancel\<close>) answer when the task is resumed.\<close>

datatype reader = Reader (reader_id: nat) (releaseLock: "unit completion")

datatype stream = Stream (stream_id: nat) (getReader: "reader completion")

text \<open>The result of \<^verbatim>\<open>reader.read()\<close>: \<^verbatim>\<open>{done: true}\<close> or \<^verbatim>\<open>{done: false, value}\<close>.\<close>

datatype read_result = ReadDone | ReadValue message

text \<open>What the manager does to the outside: the handlers it invokes (with their arguments, the
  array argument of \<^verbatim>\<open>onChange\<close> as its contents at the call) and what it writes to the
  console.\<close>

datatype event =
    OnChange message "message list"
  | OnStateChange SubscriptionState
  | OnError js_error
  | OnStop
  | ConsoleWarn string
  | ConsoleError string js_error

type_synonym addr = nat

text \<open>A JavaScript number, as far as the buffer capacity needs it: \<^verbatim>\<open>NaN\<close>, the two
  infinities, or a finite value (a rational; a double is one, and \<^verbatim>\<open>-0\<close> is 0 here).\<close>

datatype js_number = NaN | PosInfinity | NegInfinity | Finite rat

text \<open>
  The fields of the class, then the store. \<^verbatim>\<open>this.messages\<close> is a reference to an array:
  \<open>messages\<close> is its address and \<open>arrays\<close> maps every address to the contents of the array
  there; \<open>fresh\<close> is the next unused address. The handlers are the user's functions: each
  says, for its arguments, whether it returns or throws; \<open>onChange\<close> also says what it
  leaves in the array it was handed. \<open>refreshToken\<close> says whether the option was supplied
  (what the function answers arrives when the task is resumed).
\<close>

record manager =
  token :: "token option"
  refreshToken :: bool
  topic :: "string option"
  onChange :: "message \<Rightarrow> message list \<Rightarrow> message list \<times> unit completion"
  onStateChange :: "(SubscriptionState \<Rightarrow> unit completion) option"
  onError :: "(js_error \<Rightarrow> unit completion) option"
  onStop :: "unit completion option"
  state :: SubscriptionState
  messages :: addr
  maxMessages :: js_number
  subscription :: "stream option"
  reader :: "reader option"
  isRunning :: bool
  arrays :: "addr \<Rightarrow> message list"
  fresh :: addr
  calls :: "event list"

text \<open>Where a task waits, and how an asynchronous call stands after a block has run.
  \<open>FromRestart\<close> marks a \<^verbatim>\<open>stop()\<close> that \<^verbatim>\<open>restart()\<close> awaits; at
  \<open>RestartAwaitStop\<close> that \<^verbatim>\<open>stop()\<close> has returned and \<^verbatim>\<open>restart\<close> waits to go on.\<close>

datatype caller = Direct | FromRestart

datatype pc =
    StartAwaitRefresh
  | StartAwaitSubscribe
  | ReadLoopAwaitRead
  | StopAwaitReaderCancel caller
  | StopAwaitStreamCancel caller
  | RestartAwaitStop
  | RefreshAwaitToken

datatype status = Completed | Failed js_error | Await pc

section \<open>Private helpers\<close>

definition notify :: "event \<Rightarrow> manager \<Rightarrow> manager" where
  "notify ev w = w\<lparr>calls := calls w @ [ev]\<rparr>"

definition console_warn :: "string \<Rightarrow> manager \<Rightarrow> manager" where
  "console_warn s w = notify (ConsoleWarn s) w"

definition console_error :: "string \<Rightarrow> js_error \<Rightarrow> manager \<Rightarrow> manager" where
  "console_error s e w = notify (ConsoleError s e) w"

text \<open>\<^verbatim>\<open>updateState\<close> (lines 287-296).\<close>

definition updateState :: "SubscriptionState \<Rightarrow> manager \<Rightarrow> manager" where
  "updateState newState w =
     (let w1 = w\<lparr>state := newState\<rparr> in
      case onStateChange w1 of
        None \<Rightarrow> w1
      | Some h \<Rightarrow>
          (case h newState of
             Returned u \<Rightarrow> notify (OnStateChange newState) w1
           | Thrown e \<Rightarrow>
               console_error ''Error in onStateChange callback:'' e
                 (notify (OnStateChange newState) w1)))"

text \<open>\<^verbatim>\<open>handleError\<close> (lines 298-307).\<close>

definition handleError :: "js_error \<Rightarrow> manager \<Rightarrow> manager" where
  "handleError error w =
     (let w1 = updateState Error w in
      case onError w1 of
        None \<Rightarrow> w1
      | Some h \<Rightarrow>
          (case h error of
             Returned u \<Rightarrow> notify (OnError error) w1
           | Thrown err \<Rightarrow>
               console_error ''Error in onError callback:'' err (notify (OnError error) w1)))"

section \<open>The read loop\<close>

text \<open>\<^verbatim>\<open>this.topic && value.topic !== this.topic\<close> (line 251): the empty string is falsy.\<close>

definition topic_rejects :: "manager \<Rightarrow> message \<Rightarrow> bool" where
  "topic_rejects w v =
     (case topic w of None \<Rightarrow> False | Some t \<Rightarrow> t \<noteq> [] \<and> msg_topic v \<noteq> t)"

text \<open>\<^verbatim>\<open>n > m\<close> for an array length \<open>n\<close> and a number \<open>m\<close>: false for
  \<^verbatim>\<open>NaN\<close>.\<close>

definition exceeds :: "nat \<Rightarrow> js_number \<Rightarrow> bool" where
  "exceeds n m =
     (case m of
        NaN \<Rightarrow> False
      | PosInfinity \<Rightarrow> False
      | NegInfinity \<Rightarrow> True
      | Finite q \<Rightarrow> of_nat n > q)"

text \<open>Unary minus.\<close>

definition js_negate :: "js_number \<Rightarrow> js_number" where
  "js_negate m =
     (case m of
        NaN \<Rightarrow> NaN
      | PosInfinity \<Rightarrow> NegInfinity
      | NegInfinity \<Rightarrow> PosInfinity
      | Finite q \<Rightarrow> Finite (- q))"

text \<open>The integer a finite number is truncated to (towards zero).\<close>

definition js_truncate :: "rat \<Rightarrow> int" where
  "js_truncate q = (if 0 \<le> q then \<lfloor>q\<rfloor> else - \<lfloor>- q\<rfloor>)"

text \<open>\<^verbatim>\<open>Array.prototype.slice(start)\<close>: the start is truncated to an integer (\<^verbatim>\<open>NaN\<close>
  to 0, the infinities stay), a negative start counts from the end, and the result is clamped
  to the array.\<close>

definition js_slice :: "js_number \<Rightarrow> 'a list \<Rightarrow> 'a list" where
  "js_slice start xs =
     (case start of
        NaN \<Rightarrow> xs
      | NegInfinity \<Rightarrow> xs
      | PosInfinity \<Rightarrow> []
      | Finite q \<Rightarrow>
          (let len = int (length xs);
               t = js_truncate q;
               k = (if t < 0 then max (len + t) 0 else min t len)
           in drop (nat k) xs))"

text \<open>\<^verbatim>\<open>this.messages.push(value)\<close> (line 256) writes into the array in place.\<close>

definition push_message :: "message \<Rightarrow> manager \<Rightarrow> manager" where
  "push_message v w = w\<lparr>arrays := (arrays w)(messages w := arrays w (messages w) @ [v])\<rparr>"

text \<open>Lines 261-263: \<^verbatim>\<open>slice\<close> makes a new array, which \<^verbatim>\<open>this.messages\<close> then names.\<close>

definition trim_messages :: "manager \<Rightarrow> manager" where
  "trim_messages w =
     (if exceeds (length (arrays w (messages w))) (maxMessages w)
      then w\<lparr>arrays :=
               (arrays w)(fresh w := js_slice (js_negate (maxMessages w)) (arrays w (messages w))),
             messages := fresh w,
             fresh := Suc (fresh w)\<rparr>
      else w)"

text \<open>Lines 266-273: the handler receives \<^verbatim>\<open>this.messages\<close> itself, so whatever it leaves
  in that array is what the manager holds afterwards.\<close>

definition dispatch_onChange :: "message \<Rightarrow> manager \<Rightarrow> manager" where
  "dispatch_onChange v w =
     (let a = messages w;
          xs = arrays w a;
          r = onChange w v xs;
          w1 = notify (OnChange v xs) (w\<lparr>arrays := (arrays w)(a := fst r)\<rparr>)
      in case snd r of
           Returned u \<Rightarrow> w1
         | Thrown e \<Rightarrow> console_error ''Error in onChange callback:'' e w1)"

text \<open>After the loop (lines 276-279), and the \<^verbatim>\<open>catch\<close> of the loop (lines 280-284).\<close>

definition readLoop_exit :: "manager \<Rightarrow> manager" where
  "readLoop_exit w = (if isRunning w then updateState Closed w else w)"

definition readLoop_catch :: "js_error \<Rightarrow> manager \<Rightarrow> manager" where
  "readLoop_catch error w = (if isRunning w then handleError error w else w)"

text \<open>The head of the loop (lines 243-244): test \<^verbatim>\<open>this.isRunning\<close>, then call
  \<^verbatim>\<open>this.reader.read()\<close> and wait. The field is read again at every turn; on
  \<^verbatim>\<open>null\<close> the call is a TypeError, which the \<^verbatim>\<open>catch\<close> of the loop receives.\<close>

definition readLoop_next :: "manager \<Rightarrow> status \<times> manager" where
  "readLoop_next w =
     (if isRunning w then
        (case reader w of
           None \<Rightarrow> (Completed, readLoop_catch (JsError ''TypeError'') w)
         | Some rd \<Rightarrow> (Await ReadLoopAwaitRead, w))
      else (Completed, readLoop_exit w))"

text \<open>\<^verbatim>\<open>readLoop\<close> from its entry (line 240) to the first \<^verbatim>\<open>await\<close>.\<close>

definition readLoop :: "manager \<Rightarrow> status \<times> manager" where
  "readLoop w = (case reader w of None \<Rightarrow> (Completed, w) | Some rd \<Rightarrow> readLoop_next w)"

text \<open>The loop resumed with the answer of \<^verbatim>\<open>read()\<close> (lines 244-274), up to the next
  \<^verbatim>\<open>await\<close> or the end of the loop.\<close>

definition readLoop_read :: "read_result completion \<Rightarrow> manager \<Rightarrow> status \<times> manager" where
  "readLoop_read r w =
     (case r of
        Thrown e \<Rightarrow> (Completed, readLoop_catch e w)
      | Returned ReadDone \<Rightarrow> (Completed, readLoop_exit w)
      | Returned (ReadValue v) \<Rightarrow>
          if \<not> isRunning w then (Completed, readLoop_exit w)
          else if topic_rejects w v then readLoop_next w
          else readLoop_next (dispatch_onChange v (trim_messages (push_message v w))))"

section \<open>Lifecycle operations\<close>

text \<open>\<^verbatim>\<open>start\<close> from line 118 to the \<^verbatim>\<open>await\<close> of \<^verbatim>\<open>subscribe\<close> (line 126).\<close>

definition start_connect :: "manager \<Rightarrow> status \<times> manager" where
  "start_connect w =
     (case token w of
        None \<Rightarrow>
          (Completed,
           handleError (JsError ''No token provided and no refreshToken function available'') w)
      | Some t \<Rightarrow> (Await StartAwaitSubscribe, updateState Connecting w))"

text \<open>\<^verbatim>\<open>start\<close> from its entry to its first \<^verbatim>\<open>await\<close> (lines 103-126).\<close>

definition start :: "manager \<Rightarrow> status \<times> manager" where
  "start w =
     (if isRunning w then (Completed, console_warn ''Subscription is already running'' w)
      else
        (let w1 = w\<lparr>isRunning := True\<rparr> in
         if token w1 = None \<and> refreshToken w1
         then (Await StartAwaitRefresh, updateState Connecting w1)
         else start_connect w1))"

text \<open>\<^verbatim>\<open>start\<close> resumed with the answer of \<^verbatim>\<open>refreshToken()\<close> (line 115).\<close>

definition start_refreshed :: "token completion \<Rightarrow> manager \<Rightarrow> status \<times> manager" where
  "start_refreshed r w =
     (case r of
        Thrown e \<Rightarrow> (Completed, handleError e w)
      | Returned t \<Rightarrow> start_connect (w\<lparr>token := Some t\<rparr>))"

text \<open>\<^verbatim>\<open>start\<close> resumed with the answer of \<^verbatim>\<open>subscribe\<close> (lines 126-131).\<close>

definition start_subscribed :: "stream completion \<Rightarrow> manager \<Rightarrow> status \<times> manager" where
  "start_subscribed r w =
     (case r of
        Thrown e \<Rightarrow> (Completed, handleError e w)
      | Returned s \<Rightarrow>
          (let w1 = w\<lparr>subscription := Some s\<rparr> in
           case getReader s of
             Thrown e \<Rightarrow> (Completed, handleError e w1)
           | Returned rd \<Rightarrow> readLoop (updateState Active (w1\<lparr>reader := Some rd\<rparr>))))"

text \<open>\<^verbatim>\<open>this.messages = []\<close> (lines 175 and 222): a new, empty array.\<close>

definition clearMessages :: "manager \<Rightarrow> manager" where
  "clearMessages w =
     w\<lparr>arrays := (arrays w)(fresh w := []), messages := fresh w, fresh := Suc (fresh w)\<rparr>"

text \<open>The return of \<^verbatim>\<open>stop()\<close>: a direct call is complete; \<^verbatim>\<open>restart\<close>, which
  awaits it (line 174), goes on in a later block.\<close>

definition stop_done :: "caller \<Rightarrow> manager \<Rightarrow> status \<times> manager" where
  "stop_done c w =
     (case c of Direct \<Rightarrow> (Completed, w) | FromRestart \<Rightarrow> (Await RestartAwaitStop, w))"

text \<open>The outer \<^verbatim>\<open>catch\<close> of \<^verbatim>\<open>stop\<close> (lines 165-167).\<close>

definition stop_catch :: "caller \<Rightarrow> js_error \<Rightarrow> manager \<Rightarrow> status \<times> manager" where
  "stop_catch c error w = stop_done c (console_error ''Error stopping subscription:'' error w)"

text \<open>Lines 155-164.\<close>

definition stop_finish :: "caller \<Rightarrow> manager \<Rightarrow> status \<times> manager" where
  "stop_finish c w =
     (let w1 = updateState Closed w in
      stop_done c
        (case onStop w1 of
           None \<Rightarrow> w1
         | Some (Returned u) \<Rightarrow> notify OnStop w1
         | Some (Thrown e) \<Rightarrow> console_error ''Error in onStop callback:'' e (notify OnStop w1)))"

text \<open>Lines 150-151: cancel the stream if one is held.\<close>

definition stop_stream :: "caller \<Rightarrow> manager \<Rightarrow> status \<times> manager" where
  "stop_stream c w =
     (case subscription w of
        None \<Rightarrow> stop_finish c w
      | Some s \<Rightarrow> (Await (StopAwaitStreamCancel c), w))"

text \<open>\<^verbatim>\<open>stop\<close> from its entry to its first \<^verbatim>\<open>await\<close> (lines 140-145).\<close>

definition stop_from :: "caller \<Rightarrow> manager \<Rightarrow> status \<times> manager" where
  "stop_from c w =
     (let w1 = w\<lparr>isRunning := False\<rparr> in
      case reader w1 of
        None \<Rightarrow> stop_stream c w1
      | Some rd \<Rightarrow> (Await (StopAwaitReaderCancel c), w1))"

definition stop :: "manager \<Rightarrow> status \<times> manager" where
  "stop w = stop_from Direct w"

text \<open>\<^verbatim>\<open>stop\<close> resumed with the answer of \<^verbatim>\<open>this.reader.cancel()\<close> (lines 145-151).
  \<^verbatim>\<open>this.reader\<close> is read again for \<^verbatim>\<open>releaseLock\<close>.\<close>

definition stop_reader_cancelled ::
  "caller \<Rightarrow> unit completion \<Rightarrow> manager \<Rightarrow> status \<times> manager" where
  "stop_reader_cancelled c r w =
     (case r of
        Thrown e \<Rightarrow> stop_catch c e w
      | Returned u \<Rightarrow>
          (case reader w of
             None \<Rightarrow> stop_catch c (JsError ''TypeError'') w
           | Some rd \<Rightarrow>
               (case releaseLock rd of
                  Thrown e \<Rightarrow> stop_catch c e w
                | Returned u' \<Rightarrow> stop_stream c (w\<lparr>reader := None\<rparr>))))"

text \<open>\<^verbatim>\<open>stop\<close> resumed with the answer of \<^verbatim>\<open>this.subscription.cancel()\<close>
  (lines 151-164).\<close>

definition stop_stream_cancelled ::
  "caller \<Rightarrow> unit completion \<Rightarrow> manager \<Rightarrow> status \<times> manager" where
  "stop_stream_cancelled c r w =
     (case r of
        Thrown e \<Rightarrow> stop_catch c e w
      | Returned u \<Rightarrow> stop_finish c (w\<lparr>subscription := None\<rparr>))"

text \<open>\<^verbatim>\<open>restart\<close> (lines 173-177): the entry runs the first block of \<^verbatim>\<open>stop()\<close>;
  once that \<^verbatim>\<open>stop()\<close> has returned, \<^verbatim>\<open>restart\<close> is resumed at lines 175-176.\<close>

definition restart :: "manager \<Rightarrow> status \<times> manager" where
  "restart w = stop_from FromRestart w"

definition restart_resumed :: "manager \<Rightarrow> status \<times> manager" where
  "restart_resumed w = start (clearMessages w)"

text \<open>\<^verbatim>\<open>refreshAndRestart\<close> (lines 182-193): the entry, and the method resumed with the
  answer of \<^verbatim>\<open>refreshToken()\<close>. A rejection of \<^verbatim>\<open>restart\<close> would reach the
  \<^verbatim>\<open>catch\<close> too.\<close>

definition refreshAndRestart :: "manager \<Rightarrow> status \<times> manager" where
  "refreshAndRestart w =
     (if \<not> refreshToken w then (Failed (JsError ''No refreshToken function available''), w)
      else (Await RefreshAwaitToken, w))"

definition refresh_refreshed :: "token completion \<Rightarrow> manager \<Rightarrow> status \<times> manager" where
  "refresh_refreshed r w =
     (case r of
        Thrown e \<Rightarrow> (Completed, handleError e w)
      | Returned t \<Rightarrow>
          (case restart (w\<lparr>token := Some t\<rparr>) of
             (Failed e, w') \<Rightarrow> (Completed, handleError e w')
           | res \<Rightarrow> res))"

section \<open>Accessors\<close>

definition getState :: "manager \<Rightarrow> SubscriptionState" where
  "getState w = state w"

text \<open>\<^verbatim>\<open>getMessages\<close> (line 206) returns a new array with the same contents.\<close>

definition getMessages :: "manager \<Rightarrow> addr \<times> manager" where
  "getMessages w =
     (fresh w, w\<lparr>arrays := (arrays w)(fresh w := arrays w (messages w)), fresh := Suc (fresh w)\<rparr>)"


definition setTopic :: "string option \<Rightarrow> manager \<Rightarrow> manager" where
  "setTopic t w = w\<lparr>topic := t\<rparr>"

definition isActive :: "manager \<Rightarrow> bool" where
  "isActive w = (isRunning w \<and> state w = Active)"

section \<open>The constructor\<close>

text \<open>The options record (lines 4-55). Every field but \<^verbatim>\<open>onChange\<close> is optional;
  \<open>opt_maxMessages\<close> is a number when given.\<close>

record options =
  opt_token :: "token option"
  opt_refreshToken :: bool
  opt_topic :: "string option"
  opt_onChange :: "message \<Rightarrow> message list \<Rightarrow> message list \<times> unit completion"
  opt_onStateChange :: "(SubscriptionState \<Rightarrow> unit completion) option"
  opt_onError :: "(js_error \<Rightarrow> unit completion) option"
  opt_onStop :: "unit completion option"
  opt_autoStart :: "bool option"
  opt_maxMessages :: "js_number option"

text \<open>The numbers that count as false: 0 and \<^verbatim>\<open>NaN\<close>.\<close>

definition falsy :: "js_number \<Rightarrow> bool" where
  "falsy n = (n = NaN \<or> n = Finite 0)"

text \<open>The field initialisers (lines 68-83) and the assignments of lines 86-93;
  \<^verbatim>\<open>options.maxMessages || 1000\<close> takes 1000 for a missing value and for a falsy one.
  The first array of \<^verbatim>\<open>messages\<close> is at address 0.\<close>

definition new_manager :: "options \<Rightarrow> manager" where
  "new_manager opts =
     \<lparr>token = opt_token opts,
      refreshToken = opt_refreshToken opts,
      topic = opt_topic opts,
      onChange = opt_onChange opts,
      onStateChange = opt_onStateChange opts,
      onError = opt_onError opts,
      onStop = opt_onStop opts,
      state = Idle,
      messages = 0,
      maxMessages =
        (case opt_maxMessages opts of
           None \<Rightarrow> Finite 1000
         | Some n \<Rightarrow> if falsy n then Finite 1000 else n),
      subscription = None,
      reader = None,
      isRunning = False,
      arrays = (\<lambda>a. []),
      fresh = 1,
      calls = []\<rparr>"

section \<open>Tasks and their interleaving\<close>

text \<open>
  A configuration is the manager and the tasks that wait at an \<^verbatim>\<open>await\<close>. An action is
  a call of a public method, or the answer to the external call one of the tasks waits for.
  \<open>Resumed\<close> lets a task go on that waits for a method of the manager itself. An answer
  of the wrong kind for the task is no step.
\<close>

datatype response =
    TokenAnswer "token completion"
  | StreamAnswer "stream completion"
  | ReadAnswer "read_result completion"
  | CancelAnswer "unit completion"
  | Resumed

datatype action =
    CallStart
  | CallStop
  | CallRestart
  | CallRefreshAndRestart
  | CallSetTopic "string option"
  | CallClearMessages
  | Answer nat response

type_synonym config = "manager \<times> pc list"

fun resume :: "pc \<Rightarrow> response \<Rightarrow> manager \<Rightarrow> (status \<times> manager) option" where
  "resume StartAwaitRefresh (TokenAnswer r) w = Some (start_refreshed r w)"
| "resume StartAwaitSubscribe (StreamAnswer r) w = Some (start_subscribed r w)"
| "resume ReadLoopAwaitRead (ReadAnswer r) w = Some (readLoop_read r w)"
| "resume (StopAwaitReaderCancel c) (CancelAnswer r) w = Some (stop_reader_cancelled c r w)"
| "resume (StopAwaitStreamCancel c) (CancelAnswer r) w = Some (stop_stream_cancelled c r w)"
| "resume RestartAwaitStop Resumed w = Some (restart_resumed w)"
| "resume RefreshAwaitToken (TokenAnswer r) w = Some (refresh_refreshed r w)"
| "resume p a w = None"

text \<open>A call that reaches an \<^verbatim>\<open>await\<close> becomes a new task; a resumed task moves to its
  next \<^verbatim>\<open>await\<close> or leaves the list.\<close>

definition spawn :: "status \<times> manager \<Rightarrow> pc list \<Rightarrow> config" where
  "spawn r ts = (case fst r of Await p \<Rightarrow> (snd r, ts @ [p]) | Completed \<Rightarrow> (snd r, ts)
                 | Failed e \<Rightarrow> (snd r, ts))"

definition settle :: "nat \<Rightarrow> status \<times> manager \<Rightarrow> pc list \<Rightarrow> config" where
  "settle i r ts =
     (case fst r of
        Await p \<Rightarrow> (snd r, ts[i := p])
      | Completed \<Rightarrow> (snd r, take i ts @ drop (Suc i) ts)
      | Failed e \<Rightarrow> (snd r, take i ts @ drop (Suc i) ts))"

fun step :: "action \<Rightarrow> config \<Rightarrow> config option" where
  "step CallStart (w, ts) = Some (spawn (start w) ts)"
| "step CallStop (w, ts) = Some (spawn (stop w) ts)"
| "step CallRestart (w, ts) = Some (spawn (restart w) ts)"
| "step CallRefreshAndRestart (w, ts) = Some (spawn (refreshAndRestart w) ts)"
| "step (CallSetTopic t) (w, ts) = Some (setTopic t w, ts)"
| "step CallClearMessages (w, ts) = Some (clearMessages w, ts)"
| "step (Answer i a) (w, ts) =
     (if i < length ts then
        (case resume (ts ! i) a w of None \<Rightarrow> None | Some r \<Rightarrow> Some (settle i r ts))
      else None)"

fun run :: "action list \<Rightarrow> config \<Rightarrow> config option" where
  "run [] c = Some c"
| "run (a # as) c = (case step a c of None \<Rightarrow> None | Some c' \<Rightarrow> run as c')"

text \<open>\<^verbatim>\<open>new SubscriptionManager(options)\<close> (lines 85-98): the fields, then
  \<^verbatim>\<open>this.start()\<close>, not awaited, unless \<^verbatim>\<open>autoStart\<close> is \<^verbatim>\<open>false\<close>.\<close>

definition constructor :: "options \<Rightarrow> config" where
  "constructor opts =
     (if opt_autoStart opts = Some False then (new_manager opts, [])
      else spawn (start (new_manager opts)) [])"


text \<open>Serialised use: no lifecycle method is called while a \<^verbatim>\<open>stop()\<close> is still
  waiting, nor while a \<^verbatim>\<open>restart()\<close> has not yet gone on from its \<^verbatim>\<open>stop()\<close> to its
  \<^verbatim>\<open>start()\<close>, nor while a \<^verbatim>\<open>refreshAndRestart()\<close> waits for the credential. A
  \<^verbatim>\<open>start()\<close> whose loop waits for the next message holds nothing back.\<close>

fun in_stop :: "pc \<Rightarrow> bool" where
  "in_stop (StopAwaitReaderCancel c) = True"
| "in_stop (StopAwaitStreamCancel c) = True"
| "in_stop RestartAwaitStop = True"
| "in_stop p = False"

fun stop_pending :: "pc \<Rightarrow> bool" where
  "stop_pending RefreshAwaitToken = True"
| "stop_pending p = in_stop p"

fun lifecycle :: "action \<Rightarrow> bool" where
  "lifecycle CallStart = True"
| "lifecycle CallStop = True"
| "lifecycle CallRestart = True"
| "lifecycle CallRefreshAndRestart = True"
| "lifecycle a = False"

definition permitted :: "action \<Rightarrow> pc list \<Rightarrow> bool" where
  "permitted a ts = (\<not> (lifecycle a \<and> list_ex stop_pending ts))"

fun run_serial :: "action list \<Rightarrow> config \<Rightarrow> config option" where
  "run_serial [] c = Some c"
| "run_serial (a # as) c =
     (if permitted a (snd c)
      then (case step a c of None \<Rightarrow> None | Some c' \<Rightarrow> run_serial as c')
      else None)"

section \<open>Reading the record of handler calls\<close>

definition onStateChange_calls :: "event list \<Rightarrow> SubscriptionState list" where
  "onStateChange_calls evs =
     concat (map (\<lambda>ev. case ev of OnStateChange s \<Rightarrow> [s] | _ \<Rightarrow> []) evs)"

definition onError_calls :: "event list \<Rightarrow> js_error list" where
  "onError_calls evs = concat (map (\<lambda>ev. case ev of OnError e \<Rightarrow> [e] | _ \<Rightarrow> []) evs)"

definition onChange_calls :: "event list \<Rightarrow> (message \<times> message list) list" where
  "onChange_calls evs =
     concat (map (\<lambda>ev. case ev of OnChange v xs \<Rightarrow> [(v, xs)] | _ \<Rightarrow> []) evs)"

definition onStop_calls :: "event list \<Rightarrow> nat" where
  "onStop_calls evs = length (filter (\<lambda>ev. ev = OnStop) evs)"

text \<open>The manager with the same handlers made to return where they threw, and without the
  console lines that report a throwing handler.\<close>

definition callback_log :: "event \<Rightarrow> bool" where
  "callback_log ev =
     (case ev of
        ConsoleError s e \<Rightarrow>
          s = ''Error in onStateChange callback:'' \<or> s = ''Error in onError callback:''
          \<or> s = ''Error in onChange callback:'' \<or> s = ''Error in onStop callback:''
      | _ \<Rightarrow> False)"

definition quiet :: "manager \<Rightarrow> manager" where
  "quiet w =
     w\<lparr>onChange := (\<lambda>v xs. (fst (onChange w v xs), Returned ())),
       onStateChange := map_option (\<lambda>h s. Returned ()) (onStateChange w),
       onError := map_option (\<lambda>h e. Returned ()) (onError w),
       onStop := map_option (\<lambda>r. Returned ()) (onStop w),
       calls := filter (\<lambda>ev. \<not> callback_log ev) (calls w)\<rparr>"

section \<open>Notions used in the claims\<close>

text \<open>The invariant of serialised use that the handles are held whenever the manager is
  running in state \<open>Active\<close>.\<close>

definition handles_held :: "manager \<Rightarrow> bool" where
  "handles_held w =
     (if isRunning w \<and> state w = Active then reader w \<noteq> None \<and> subscription w \<noteq> None
      else True)"

text \<open>\<^verbatim>\<open>stop()\<close>, \<^verbatim>\<open>restart()\<close> and \<^verbatim>\<open>refreshAndRestart()\<close> run with nothing
  else in between: \<open>rc\<close> answers \<^verbatim>\<open>reader.cancel()\<close> and \<open>sc\<close> answers
  \<^verbatim>\<open>subscription.cancel()\<close>, where the call waits for one; \<^verbatim>\<open>restart\<close> then goes on
  from its \<^verbatim>\<open>stop()\<close>; \<open>tk\<close> answers the credential fetch.\<close>

definition answer_reader_cancel :: "unit completion \<Rightarrow> status \<times> manager \<Rightarrow> status \<times> manager" where
  "answer_reader_cancel rc r =
     (case fst r of
        Await p \<Rightarrow>
          (case p of StopAwaitReaderCancel c \<Rightarrow> stop_reader_cancelled c rc (snd r) | _ \<Rightarrow> r)
      | _ \<Rightarrow> r)"

definition answer_stream_cancel :: "unit completion \<Rightarrow> status \<times> manager \<Rightarrow> status \<times> manager" where
  "answer_stream_cancel sc r =
     (case fst r of
        Await p \<Rightarrow>
          (case p of StopAwaitStreamCancel c \<Rightarrow> stop_stream_cancelled c sc (snd r) | _ \<Rightarrow> r)
      | _ \<Rightarrow> r)"

definition stop_run :: "unit completion \<Rightarrow> unit completion \<Rightarrow> manager \<Rightarrow> status \<times> manager" where
  "stop_run rc sc w = answer_stream_cancel sc (answer_reader_cancel rc (stop w))"

definition answer_resumed :: "status \<times> manager \<Rightarrow> status \<times> manager" where
  "answer_resumed r =
     (case fst r of
        Await p \<Rightarrow> (case p of RestartAwaitStop \<Rightarrow> restart_resumed (snd r) | _ \<Rightarrow> r)
      | _ \<Rightarrow> r)"

definition answer_token :: "token completion \<Rightarrow> status \<times> manager \<Rightarrow> status \<times> manager" where
  "answer_token tk r =
     (case fst r of
        Await p \<Rightarrow> (case p of RefreshAwaitToken \<Rightarrow> refresh_refreshed tk (snd r) | _ \<Rightarrow> r)
      | _ \<Rightarrow> r)"

definition restart_run :: "unit completion \<Rightarrow> unit completion \<Rightarrow> manager \<Rightarrow> status \<times> manager" where
  "restart_run rc sc w =
     answer_resumed (answer_stream_cancel sc (answer_reader_cancel rc (restart w)))"

definition refreshAndRestart_run ::
  "token completion \<Rightarrow> unit completion \<Rightarrow> unit completion \<Rightarrow> manager \<Rightarrow> status \<times> manager" where
  "refreshAndRestart_run tk rc sc w =
     answer_resumed
       (answer_stream_cancel sc (answer_reader_cancel rc (answer_token tk (refreshAndRestart w))))"

text \<open>What serialised use maintains: the handles are held, a waiting \<^verbatim>\<open>stop()\<close> has
  cleared \<^verbatim>\<open>isRunning\<close>, and at most one task is of the kind that holds calls back.\<close>

definition status_in_stop :: "status \<Rightarrow> bool" where
  "status_in_stop st = (case st of Await p \<Rightarrow> in_stop p | _ \<Rightarrow> False)"

definition status_pending :: "status \<Rightarrow> bool" where
  "status_pending st = (case st of Await p \<Rightarrow> stop_pending p | _ \<Rightarrow> False)"

definition serial_inv :: "config \<Rightarrow> bool" where
  "serial_inv c =
     (handles_held (fst c)
      \<and> (if list_ex in_stop (snd c) then \<not> isRunning (fst c) else True)
      \<and> length (filter stop_pending (snd c)) \<le> 1)"

text \<open>What a block of \<^verbatim>\<open>stop()\<close> leaves: a task that waits in \<^verbatim>\<open>stop()\<close> with
  \<^verbatim>\<open>isRunning\<close> cleared, or a manager past the \<^verbatim>\<open>stop()\<close> that holds its handles.\<close>

definition stop_post :: "status \<times> manager \<Rightarrow> bool" where
  "stop_post r =
     (if status_in_stop (fst r) then \<not> isRunning (snd r)
      else \<not> status_pending (fst r) \<and> handles_held (snd r))"

text \<open>The answers with which an awaited call of \<^verbatim>\<open>start()\<close>, of its read loop or of
  \<^verbatim>\<open>refreshAndRestart()\<close> fails with the error \<open>e\<close>: the credential fetch, \<^verbatim>\<open>subscribe\<close> or
  \<^verbatim>\<open>read()\<close> rejects with \<open>e\<close>, or \<^verbatim>\<open>subscribe\<close> answers with a stream whose
  \<^verbatim>\<open>getReader()\<close> throws \<open>e\<close>.\<close>

fun failing :: "js_error \<Rightarrow> response \<Rightarrow> bool" where
  "failing e (TokenAnswer (Thrown e')) = (e' = e)"
| "failing e (StreamAnswer (Thrown e')) = (e' = e)"
| "failing e (StreamAnswer (Returned s)) = (getReader s = Thrown e)"
| "failing e (ReadAnswer (Thrown e')) = (e' = e)"
| "failing e a = False"

text \<open>A connection attempt is under way: the call waits for the credential or for
  \<^verbatim>\<open>subscribe\<close>, the manager is running, in state \<open>Connecting\<close>.\<close>

definition reconnecting :: "status \<times> manager \<Rightarrow> bool" where
  "reconnecting r =
     (fst r = (if token (snd r) = None then Await StartAwaitRefresh else Await StartAwaitSubscribe)
      \<and> state (snd r) = Connecting \<and> isRunning (snd r))"

text \<open>What a call of \<^verbatim>\<open>getMessages()\<close> hands out: the contents of the array it returns.\<close>

definition messages_now :: "manager \<Rightarrow> message list" where
  "messages_now w = arrays (snd (getMessages w)) (fst (getMessages w))"

text \<open>A caller writing \<open>xs\<close> into the array at address \<open>a\<close>.\<close>

definition overwrite :: "addr \<Rightarrow> message list \<Rightarrow> manager \<Rightarrow> manager" where
  "overwrite a xs w = w\<lparr>arrays := (arrays w)(a := xs)\<rparr>"

section \<open>Sample values\<close>

definition keeps :: "message \<Rightarrow> message list \<Rightarrow> message list \<times> unit completion" where
  "keeps v xs = (xs, Returned ())"

definition sample_options :: options where
  "sample_options =
     \<lparr>opt_token = Some (Token 7),
      opt_refreshToken = False,
      opt_topic = None,
      opt_onChange = keeps,
      opt_onStateChange = Some (\<lambda>s. Returned ()),
      opt_onError = Some (\<lambda>e. Returned ()),
      opt_onStop = Some (Returned ()),
      opt_autoStart = None,
      opt_maxMessages = None\<rparr>"

definition sample_reader :: reader where
  "sample_reader = Reader 1 (Returned ())"

definition sample_stream :: stream where
  "sample_stream = Stream 1 (Returned sample_reader)"

text \<open>The manager built from the options once \<^verbatim>\<open>subscribe\<close> has answered with
  \<open>sample_stream\<close>: in state \<open>Active\<close>, its read loop waiting for the first message.\<close>

definition connected :: "options \<Rightarrow> manager" where
  "connected opts =
     (case run [Answer 0 (StreamAnswer (Returned sample_stream))] (constructor opts) of
        Some c \<Rightarrow> fst c
      | None \<Rightarrow> new_manager opts)"

text \<open>Options whose four handlers all throw.\<close>

definition throwing_options :: options where
  "throwing_options =
     sample_options
       \<lparr>opt_onChange := (\<lambda>v xs. (xs, Thrown (JsError ''onChange''))),
        opt_onStateChange := Some (\<lambda>s. Thrown (JsError ''onStateChange'')),
        opt_onError := Some (\<lambda>e. Thrown (JsError ''onError'')),
        opt_onStop := Some (Thrown (JsError ''onStop''))\<rparr>"

text \<open>Options whose \<^verbatim>\<open>onChange\<close> empties the array it is handed
  (\<^verbatim>\<open>allMessages.length = 0\<close>).\<close>

definition clearing_options :: options where
  "clearing_options = sample_options\<lparr>opt_onChange := (\<lambda>v xs. ([], Returned ()))\<rparr>"

section \<open>What the helpers leave unchanged\<close>

lemmas log_defs = notify_def console_warn_def console_error_def

lemma updateState_fields [simp]:
  "state (updateState s w) = s"
  "token (updateState s w) = token w"
  "refreshToken (updateState s w) = refreshToken w"
  "topic (updateState s w) = topic w"
  "onChange (updateState s w) = onChange w"
  "onStateChange (updateState s w) = onStateChange w"
  "onError (updateState s w) = onError w"
  "onStop (updateState s w) = onStop w"
  "messages (updateState s w) = messages w"
  "maxMessages (updateState s w) = maxMessages w"
  "subscription (updateState s w) = subscription w"
  "reader (updateState s w) = reader w"
  "isRunning (updateState s w) = isRunning w"
  "arrays (updateState s w) = arrays w"
  "fresh (updateState s w) = fresh w"
  by (simp_all add: updateState_def Let_def log_defs split: option.split completion.split)

lemma updateState_calls:
  "calls (updateState s w) =
     calls w @ (case onStateChange w of None \<Rightarrow> []
       | Some h \<Rightarrow> OnStateChange s #
           (case h s of Returned u \<Rightarrow> []
            | Thrown e \<Rightarrow> [ConsoleError ''Error in onStateChange callback:'' e]))"
  by (simp add: updateState_def Let_def log_defs split: option.split completion.split)

lemma handleError_fields [simp]:
  "state (handleError e w) = Error"
  "token (handleError e w) = token w"
  "refreshToken (handleError e w) = refreshToken w"
  "topic (handleError e w) = topic w"
  "onChange (handleError e w) = onChange w"
  "onStateChange (handleError e w) = onStateChange w"
  "onError (handleError e w) = onError w"
  "onStop (handleError e w) = onStop w"
  "messages (handleError e w) = messages w"
  "maxMessages (handleError e w) = maxMessages w"
  "subscription (handleError e w) = subscription w"
  "reader (handleError e w) = reader w"
  "isRunning (handleError e w) = isRunning w"
  "arrays (handleError e w) = arrays w"
  "fresh (handleError e w) = fresh w"
  by (simp_all add: handleError_def Let_def log_defs split: option.split completion.split)

lemma handleError_calls:
  "calls (handleError e w) =
     calls (updateState Error w) @ (case onError w of None \<Rightarrow> []
       | Some h \<Rightarrow> OnError e #
           (case h e of Returned u \<Rightarrow> []
            | Thrown err \<Rightarrow> [ConsoleError ''Error in onError callback:'' err]))"
  by (simp add: handleError_def Let_def log_defs split: option.split completion.split)


section \<open>Handlers that throw change the console only\<close>

lemma quiet_fields [simp]:
  "state (quiet w) = state w"
  "token (quiet w) = token w"
  "refreshToken (quiet w) = refreshToken w"
  "topic (quiet w) = topic w"
  "onChange (quiet w) = (\<lambda>v xs. (fst (onChange w v xs), Returned ()))"
  "onStateChange (quiet w) = map_option (\<lambda>h s. Returned ()) (onStateChange w)"
  "onError (quiet w) = map_option (\<lambda>h e. Returned ()) (onError w)"
  "onStop (quiet w) = map_option (\<lambda>r. Returned ()) (onStop w)"
  "messages (quiet w) = messages w"
  "maxMessages (quiet w) = maxMessages w"
  "subscription (quiet w) = subscription w"
  "reader (quiet w) = reader w"
  "isRunning (quiet w) = isRunning w"
  "arrays (quiet w) = arrays w"
  "fresh (quiet w) = fresh w"
  "calls (quiet w) = filter (\<lambda>ev. \<not> callback_log ev) (calls w)"
  by (simp_all add: quiet_def)


lemma quiet_notify: "\<not> callback_log ev \<Longrightarrow> notify ev (quiet w) = quiet (notify ev w)"
  by (simp add: quiet_def notify_def)

lemma quiet_callback_error:
  "callback_log (ConsoleError s e) \<Longrightarrow> quiet (console_error s e w) = quiet w"
  by (simp add: quiet_def notify_def console_error_def)

lemma quiet_console_error:
  "\<not> callback_log (ConsoleError s e) \<Longrightarrow> console_error s e (quiet w) = quiet (console_error s e w)"
  by (simp add: quiet_def notify_def console_error_def)

lemma quiet_console_warn: "console_warn s (quiet w) = quiet (console_warn s w)"
  by (simp add: quiet_def notify_def console_warn_def callback_log_def)

lemma quiet_updateState: "updateState s (quiet w) = quiet (updateState s w)"
  by (simp add: quiet_def updateState_def Let_def log_defs callback_log_def split: option.split completion.split)

lemma quiet_handleError: "handleError e (quiet w) = quiet (handleError e w)"
proof (cases "onError w")
  case None
  then show ?thesis by (simp add: handleError_def Let_def quiet_updateState)
next
  case (Some h)
  then show ?thesis
    by (cases "h e")
      (simp_all add: handleError_def Let_def quiet_updateState quiet_notify
        quiet_callback_error callback_log_def)
qed

lemma quiet_push: "push_message v (quiet w) = quiet (push_message v w)"
  by (simp add: quiet_def push_message_def)

lemma quiet_trim: "trim_messages (quiet w) = quiet (trim_messages w)"
  by (simp add: quiet_def trim_messages_def)

lemma quiet_clear: "clearMessages (quiet w) = quiet (clearMessages w)"
  by (simp add: quiet_def clearMessages_def)

lemma quiet_setTopic: "setTopic t (quiet w) = quiet (setTopic t w)"
  by (simp add: quiet_def setTopic_def)

lemma quiet_dispatch: "dispatch_onChange v (quiet w) = quiet (dispatch_onChange v w)"
  by (cases "snd (onChange w v (arrays w (messages w)))")
    (simp_all add: quiet_def dispatch_onChange_def Let_def log_defs callback_log_def)

lemma quiet_readLoop_exit: "readLoop_exit (quiet w) = quiet (readLoop_exit w)"
  by (simp add: readLoop_exit_def quiet_updateState)

lemma quiet_readLoop_catch: "readLoop_catch e (quiet w) = quiet (readLoop_catch e w)"
  by (simp add: readLoop_catch_def quiet_handleError)

lemma quiet_readLoop_next: "readLoop_next (quiet w) = apsnd quiet (readLoop_next w)"
  by (simp add: readLoop_next_def quiet_readLoop_exit quiet_readLoop_catch split: option.split)

lemma quiet_readLoop: "readLoop (quiet w) = apsnd quiet (readLoop w)"
  by (simp add: readLoop_def quiet_readLoop_next split: option.split)

lemma topic_rejects_quiet [simp]: "topic_rejects (quiet w) v = topic_rejects w v"
  by (simp add: topic_rejects_def)

lemma quiet_readLoop_read: "readLoop_read r (quiet w) = apsnd quiet (readLoop_read r w)"
  by (simp add: readLoop_read_def quiet_readLoop_exit quiet_readLoop_catch
      quiet_readLoop_next quiet_dispatch quiet_trim quiet_push
      split: completion.split read_result.split)

lemma quiet_start_connect: "start_connect (quiet w) = apsnd quiet (start_connect w)"
  by (simp add: start_connect_def quiet_handleError quiet_updateState split: option.split)

lemma quiet_with_isRunning: "(quiet w)\<lparr>isRunning := b\<rparr> = quiet (w\<lparr>isRunning := b\<rparr>)"
  and quiet_with_token: "(quiet w)\<lparr>token := t\<rparr> = quiet (w\<lparr>token := t\<rparr>)"
  and quiet_with_reader: "(quiet w)\<lparr>reader := r\<rparr> = quiet (w\<lparr>reader := r\<rparr>)"
  and quiet_with_subscription: "(quiet w)\<lparr>subscription := s\<rparr> = quiet (w\<lparr>subscription := s\<rparr>)"
  by (simp_all add: quiet_def)

lemmas quiet_with = quiet_with_isRunning quiet_with_token quiet_with_reader quiet_with_subscription

lemma quiet_start: "start (quiet w) = apsnd quiet (start w)"
  by (simp add: start_def Let_def quiet_console_warn quiet_updateState
      quiet_start_connect quiet_with)

lemma quiet_start_refreshed: "start_refreshed r (quiet w) = apsnd quiet (start_refreshed r w)"
  by (simp add: start_refreshed_def quiet_handleError quiet_start_connect quiet_with
      split: completion.split)

lemma quiet_start_subscribed: "start_subscribed r (quiet w) = apsnd quiet (start_subscribed r w)"
  by (simp add: start_subscribed_def Let_def quiet_handleError quiet_readLoop
      quiet_updateState quiet_with split: completion.split)

lemma quiet_stop_done: "stop_done c (quiet w) = apsnd quiet (stop_done c w)"
  by (simp add: stop_done_def split: caller.split)

lemma quiet_restart_resumed: "restart_resumed (quiet w) = apsnd quiet (restart_resumed w)"
  by (simp add: restart_resumed_def quiet_start quiet_clear)

lemma quiet_stop_catch: "stop_catch c e (quiet w) = apsnd quiet (stop_catch c e w)"
  by (simp add: stop_catch_def quiet_stop_done quiet_console_error callback_log_def)

lemma quiet_stop_finish: "stop_finish c (quiet w) = apsnd quiet (stop_finish c w)"
proof (cases "onStop w")
  case None
  then show ?thesis
    by (simp add: stop_finish_def Let_def quiet_stop_done quiet_updateState)
next
  case (Some r)
  show ?thesis
  proof (cases r)
    case (Returned u)
    with Some show ?thesis
      by (simp add: stop_finish_def Let_def quiet_stop_done quiet_updateState
          quiet_notify callback_log_def)
  next
    case (Thrown e)
    have "quiet (console_error ''Error in onStop callback:'' e (notify OnStop (updateState Closed w)))
        = quiet (notify OnStop (updateState Closed w))"
      by (rule quiet_callback_error) (simp add: callback_log_def)
    with Some Thrown show ?thesis
      by (simp add: stop_finish_def Let_def quiet_updateState quiet_notify callback_log_def
          quiet_stop_done [symmetric])
  qed
qed

lemma quiet_stop_stream: "stop_stream c (quiet w) = apsnd quiet (stop_stream c w)"
  by (simp add: stop_stream_def quiet_stop_finish split: option.split)

lemma quiet_stop_from: "stop_from c (quiet w) = apsnd quiet (stop_from c w)"
  by (simp add: stop_from_def Let_def quiet_stop_stream quiet_with split: option.split)

lemma quiet_stop_reader_cancelled:
  "stop_reader_cancelled c r (quiet w) = apsnd quiet (stop_reader_cancelled c r w)"
  by (simp add: stop_reader_cancelled_def quiet_stop_catch quiet_stop_stream quiet_with
      split: completion.split option.split)

lemma quiet_stop_stream_cancelled:
  "stop_stream_cancelled c r (quiet w) = apsnd quiet (stop_stream_cancelled c r w)"
  by (simp add: stop_stream_cancelled_def quiet_stop_catch quiet_stop_finish quiet_with
      split: completion.split)

lemma quiet_refreshAndRestart: "refreshAndRestart (quiet w) = apsnd quiet (refreshAndRestart w)"
  by (simp add: refreshAndRestart_def)

lemma quiet_idem [simp]: "quiet (quiet w) = quiet w"
  by (simp add: quiet_def option.map_comp comp_def)

lemma quiet_refresh_refreshed:
  "refresh_refreshed r (quiet w) = apsnd quiet (refresh_refreshed r w)"
proof (cases r)
  case (Thrown e)
  then show ?thesis by (simp add: refresh_refreshed_def quiet_handleError)
next
  case (Returned t)
  obtain st w' where res: "stop_from FromRestart (w\<lparr>token := Some t\<rparr>) = (st, w')"
    by (cases "stop_from FromRestart (w\<lparr>token := Some t\<rparr>)")
  with Returned show ?thesis
    by (cases st)
      (simp_all add: refresh_refreshed_def restart_def quiet_with quiet_stop_from quiet_handleError)
qed

lemma quiet_resume: "resume p a (quiet w) = map_option (apsnd quiet) (resume p a w)"
  by (induction p a w rule: resume.induct)
    (simp_all add: quiet_start_refreshed quiet_start_subscribed quiet_readLoop_read
      quiet_stop_reader_cancelled quiet_stop_stream_cancelled quiet_refresh_refreshed
      quiet_restart_resumed)

lemma quiet_spawn: "spawn (apsnd quiet r) ts = apfst quiet (spawn r ts)"
  by (cases r) (simp add: spawn_def split: status.split)

lemma quiet_settle: "settle i (apsnd quiet r) ts = apfst quiet (settle i r ts)"
  by (cases r) (simp add: settle_def split: status.split)

lemma quiet_step: "step a (quiet w, ts) = map_option (apfst quiet) (step a (w, ts))"
proof (cases a)
  case (Answer i b)
  then show ?thesis
    by (cases "resume (ts ! i) b w") (simp_all add: quiet_resume quiet_settle)
qed (simp_all add: quiet_start quiet_stop_from quiet_refreshAndRestart quiet_spawn
      quiet_setTopic quiet_clear stop_def restart_def)

lemma quiet_run: "run acts (quiet w, ts) = map_option (apfst quiet) (run acts (w, ts))"
proof (induction acts arbitrary: w ts)
  case Nil
  then show ?case by simp
next
  case (Cons a acts)
  show ?case
  proof (cases "step a (w, ts)")
    case None
    then show ?thesis by (simp add: quiet_step)
  next
    case (Some c)
    obtain w' ts' where c: "c = (w', ts')" by (cases c)
    with Some Cons.IH [of w' ts'] show ?thesis by (simp add: quiet_step)
  qed
qed

section \<open>Serialised use keeps the handles\<close>

lemma filter_one_removed:
  assumes "length (filter P ts) \<le> 1" "i < length ts" "P (ts ! i)"
  shows "filter P (take i ts) = []" "filter P (drop (Suc i) ts) = []"
proof -
  have "ts = take i ts @ ts ! i # drop (Suc i) ts"
    using assms(2) by (rule id_take_nth_drop)
  then have "filter P ts = filter P (take i ts) @ ts ! i # filter P (drop (Suc i) ts)"
    using assms(3) by (metis filter.simps(2) filter_append)
  with assms(1) show "filter P (take i ts) = []" "filter P (drop (Suc i) ts) = []"
    by (cases "filter P (take i ts)"; cases "filter P (drop (Suc i) ts)"; simp)+
qed

lemma filter_other_removed:
  assumes "i < length ts" "\<not> P (ts ! i)"
  shows "filter P (take i ts @ drop (Suc i) ts) = filter P ts"
proof -
  have "ts = take i ts @ ts ! i # drop (Suc i) ts"
    using assms(1) by (rule id_take_nth_drop)
  then have "filter P ts = filter P (take i ts @ ts ! i # drop (Suc i) ts)" by simp
  with assms(2) show ?thesis by simp
qed

lemma filter_update:
  "i < length ts \<Longrightarrow>
     filter P (ts[i := p]) = filter P (take i ts) @ (if P p then [p] else []) @ filter P (drop (Suc i) ts)"
  by (simp add: upd_conv_take_nth_drop)

lemma filter_removed:
  "filter P (take i ts @ drop (Suc i) ts) = filter P (take i ts) @ filter P (drop (Suc i) ts)"
  by simp

lemma in_stop_pending: "in_stop p \<Longrightarrow> stop_pending p"
  by (cases p) simp_all

lemma list_ex_filter: "list_ex P ts = (filter P ts \<noteq> [])"
  by (induction ts) simp_all

lemma handles_held_updateState [simp]: "s \<noteq> Active \<Longrightarrow> handles_held (updateState s w)"
  by (simp add: handles_held_def)

lemma handles_held_handleError [simp]: "handles_held (handleError e w)"
  by (simp add: handles_held_def)

lemma handles_held_not_running: "\<not> isRunning w \<Longrightarrow> handles_held w"
  by (simp add: handles_held_def)

lemma handles_held_calls [simp]:
  "handles_held (notify ev w) = handles_held w"
  "handles_held (console_warn s w) = handles_held w"
  "handles_held (console_error s e w) = handles_held w"
  by (simp_all add: handles_held_def log_defs)

lemma status_simps [simp]:
  "status_pending Completed = False"
  "status_pending (Failed e) = False"
  "status_pending (Await p) = stop_pending p"
  "status_in_stop Completed = False"
  "status_in_stop (Failed e) = False"
  "status_in_stop (Await p) = in_stop p"
  by (simp_all add: status_pending_def status_in_stop_def)

lemma start_connect_inv [simp]:
  "\<not> status_pending (fst (start_connect w))"
  "handles_held (snd (start_connect w))"
  "isRunning (snd (start_connect w)) = isRunning w"
  by (simp_all add: start_connect_def split: option.split)

lemma start_inv [simp]:
  "\<not> status_pending (fst (start w))"
  "handles_held w \<Longrightarrow> handles_held (snd (start w))"
  by (simp_all add: start_def Let_def)

lemma start_refreshed_inv [simp]:
  "\<not> status_pending (fst (start_refreshed r w))"
  "handles_held (snd (start_refreshed r w))"
  "isRunning (snd (start_refreshed r w)) = isRunning w"
  by (simp_all add: start_refreshed_def split: completion.split)

lemma readLoop_exit_inv [simp]:
  "handles_held (readLoop_exit w) = handles_held w \<or> handles_held (readLoop_exit w)"
  "isRunning (readLoop_exit w) = isRunning w"
  by (simp_all add: readLoop_exit_def)

lemma handles_held_readLoop_exit [simp]: "handles_held w \<Longrightarrow> handles_held (readLoop_exit w)"
  by (simp add: readLoop_exit_def)

lemma readLoop_catch_inv [simp]:
  "handles_held w \<Longrightarrow> handles_held (readLoop_catch e w)"
  "isRunning (readLoop_catch e w) = isRunning w"
  by (simp_all add: readLoop_catch_def)

lemma readLoop_next_inv [simp]:
  "\<not> status_pending (fst (readLoop_next w))"
  "handles_held w \<Longrightarrow> handles_held (snd (readLoop_next w))"
  "isRunning (snd (readLoop_next w)) = isRunning w"
  by (simp_all add: readLoop_next_def split: option.split)

lemma readLoop_inv [simp]:
  "\<not> status_pending (fst (readLoop w))"
  "handles_held w \<Longrightarrow> handles_held (snd (readLoop w))"
  "isRunning (snd (readLoop w)) = isRunning w"
  by (simp_all add: readLoop_def split: option.split)

lemma handles_held_active:
  "reader w \<noteq> None \<Longrightarrow> subscription w \<noteq> None \<Longrightarrow> handles_held (updateState s w)"
  by (simp add: handles_held_def)

lemma start_subscribed_inv [simp]:
  "\<not> status_pending (fst (start_subscribed r w))"
  "handles_held (snd (start_subscribed r w))"
  "isRunning (snd (start_subscribed r w)) = isRunning w"
  by (simp_all add: start_subscribed_def Let_def handles_held_active split: completion.split)

lemma accept_fields [simp]:
  "isRunning (dispatch_onChange v w) = isRunning w"
  "state (dispatch_onChange v w) = state w"
  "reader (dispatch_onChange v w) = reader w"
  "subscription (dispatch_onChange v w) = subscription w"
  "isRunning (trim_messages w) = isRunning w"
  "state (trim_messages w) = state w"
  "reader (trim_messages w) = reader w"
  "subscription (trim_messages w) = subscription w"
  "isRunning (push_message v w) = isRunning w"
  "state (push_message v w) = state w"
  "reader (push_message v w) = reader w"
  "subscription (push_message v w) = subscription w"
  "isRunning (clearMessages w) = isRunning w"
  "state (clearMessages w) = state w"
  "reader (clearMessages w) = reader w"
  "subscription (clearMessages w) = subscription w"
  by (simp_all add: dispatch_onChange_def trim_messages_def push_message_def clearMessages_def
      Let_def log_defs split: completion.split)

lemma handles_held_accept [simp]:
  "handles_held (dispatch_onChange v w) = handles_held w"
  "handles_held (trim_messages w) = handles_held w"
  "handles_held (push_message v w) = handles_held w"
  "handles_held (clearMessages w) = handles_held w"
  by (simp_all add: handles_held_def)

lemma readLoop_read_inv [simp]:
  "\<not> status_pending (fst (readLoop_read r w))"
  "handles_held w \<Longrightarrow> handles_held (snd (readLoop_read r w))"
  "isRunning (snd (readLoop_read r w)) = isRunning w"
  by (simp_all add: readLoop_read_def split: completion.split read_result.split)



lemma not_pending_not_in_stop: "\<not> status_pending st \<Longrightarrow> \<not> status_in_stop st"
  by (cases st) (auto dest: in_stop_pending)

lemma stop_postI:
  "\<not> status_pending (fst r) \<Longrightarrow> handles_held (snd r) \<Longrightarrow> stop_post r"
  by (simp add: stop_post_def not_pending_not_in_stop)

lemma stop_done_post: "\<not> isRunning w \<Longrightarrow> stop_post (stop_done c w)"
  by (cases c) (simp_all add: stop_done_def stop_post_def handles_held_not_running)

lemma restart_resumed_post: "handles_held w \<Longrightarrow> stop_post (restart_resumed w)"
  by (simp add: restart_resumed_def stop_postI)

lemma stop_catch_post: "\<not> isRunning w \<Longrightarrow> stop_post (stop_catch c e w)"
  by (simp add: stop_catch_def stop_done_post log_defs)

lemma stop_finish_post: "\<not> isRunning w \<Longrightarrow> stop_post (stop_finish c w)"
  by (simp add: stop_finish_def Let_def stop_done_post log_defs split: option.split completion.split)

lemma stop_stream_post: "\<not> isRunning w \<Longrightarrow> stop_post (stop_stream c w)"
  by (simp add: stop_stream_def stop_finish_post split: option.split)
    (simp add: stop_post_def)

lemma stop_from_post: "stop_post (stop_from c w)"
  by (simp add: stop_from_def Let_def stop_stream_post split: option.split)
    (simp add: stop_post_def)

lemma stop_reader_cancelled_post:
  "\<not> isRunning w \<Longrightarrow> stop_post (stop_reader_cancelled c r w)"
  by (simp add: stop_reader_cancelled_def stop_catch_post stop_stream_post
      split: completion.split option.split)

lemma stop_stream_cancelled_post:
  "\<not> isRunning w \<Longrightarrow> stop_post (stop_stream_cancelled c r w)"
  by (simp add: stop_stream_cancelled_def stop_catch_post stop_finish_post
      split: completion.split)

lemma refresh_refreshed_post: "handles_held w \<Longrightarrow> stop_post (refresh_refreshed r w)"
proof (cases r)
  case (Thrown e)
  then show ?thesis by (simp add: refresh_refreshed_def stop_postI)
next
  case (Returned t)
  obtain st w' where res: "stop_from FromRestart (w\<lparr>token := Some t\<rparr>) = (st, w')"
    by (cases "stop_from FromRestart (w\<lparr>token := Some t\<rparr>)")
  have "stop_post (st, w')" using stop_from_post [of FromRestart "w\<lparr>token := Some t\<rparr>"] res by simp
  with Returned res show ?thesis
    by (cases st) (simp_all add: refresh_refreshed_def restart_def stop_postI)
qed


lemma filter_update_same:
  assumes "i < length ts" "\<not> P (ts ! i)" "\<not> P p"
  shows "filter P (ts[i := p]) = filter P ts"
proof -
  have "filter P (ts[i := p]) = filter P (take i ts @ drop (Suc i) ts)"
    using assms(1,3) by (simp add: filter_update)
  also have "\<dots> = filter P ts" using assms(1,2) by (rule filter_other_removed)
  finally show ?thesis .
qed

lemma spawn_serial:
  assumes "stop_post r" "filter stop_pending ts = []"
  shows "serial_inv (spawn r ts)"
proof -
  have none: "filter in_stop ts = []"
    using assms(2) by (auto simp: filter_empty_conv dest: in_stop_pending)
  show ?thesis
  proof (cases "fst r")
    case (Await p)
    with assms none show ?thesis
      by (cases "in_stop p")
        (auto simp: serial_inv_def spawn_def stop_post_def list_ex_filter
          handles_held_not_running in_stop_pending)
  qed (use assms none in \<open>auto simp: serial_inv_def spawn_def stop_post_def list_ex_filter\<close>)
qed

lemma settle_serial_stop:
  assumes "stop_post r" "i < length ts" "stop_pending (ts ! i)"
    "length (filter stop_pending ts) \<le> 1"
  shows "serial_inv (settle i r ts)"
proof -
  have a: "filter stop_pending (take i ts) = []" "filter stop_pending (drop (Suc i) ts) = []"
    using filter_one_removed [OF assms(4,2,3)] by simp_all
  then have b: "filter in_stop (take i ts) = []" "filter in_stop (drop (Suc i) ts) = []"
    by (auto simp: filter_empty_conv dest: in_stop_pending)
  show ?thesis
  proof (cases "fst r")
    case (Await p)
    with assms a b show ?thesis
      by (cases "in_stop p")
        (auto simp: serial_inv_def settle_def stop_post_def list_ex_filter filter_update
          handles_held_not_running in_stop_pending)
  qed (use assms a b in \<open>auto simp: serial_inv_def settle_def stop_post_def list_ex_filter\<close>)
qed

lemma settle_serial_start:
  assumes "\<not> status_pending (fst r)" "handles_held (snd r)" "isRunning (snd r) = isRunning w"
    "serial_inv (w, ts)" "i < length ts" "\<not> stop_pending (ts ! i)"
  shows "serial_inv (settle i r ts)"
proof -
  have old: "\<not> in_stop (ts ! i)" using assms(6) by (auto dest: in_stop_pending)
  show ?thesis
  proof (cases "fst r")
    case (Await p)
    with assms(1) have p: "\<not> stop_pending p" "\<not> in_stop p" by (auto dest: in_stop_pending)
    with Await assms old show ?thesis
      by (auto simp: serial_inv_def settle_def list_ex_filter filter_update_same
          split: if_splits)
  next
    case Completed
    with assms old show ?thesis
      by (auto simp: serial_inv_def settle_def list_ex_filter filter_other_removed
          simp del: filter_append split: if_splits)
  next
    case (Failed e)
    with assms old show ?thesis
      by (auto simp: serial_inv_def settle_def list_ex_filter filter_other_removed
          simp del: filter_append split: if_splits)
  qed
qed

lemma resume_serial:
  assumes "serial_inv (w, ts)" "i < length ts" "resume (ts ! i) a w = Some r"
  shows "serial_inv (settle i r ts)"
proof -
  from assms(1) have held: "handles_held w"
    and stopped: "list_ex in_stop ts \<Longrightarrow> \<not> isRunning w"
    and one: "length (filter stop_pending ts) \<le> 1"
    by (simp_all add: serial_inv_def)
  have ex: "in_stop (ts ! i) \<Longrightarrow> list_ex in_stop ts"
    using assms(2) by (auto simp: list_ex_iff)
  show ?thesis
  proof (cases "ts ! i")
    case StartAwaitRefresh
    with assms(3) obtain x where "r = start_refreshed x w" by (cases a) auto
    with StartAwaitRefresh assms(1,2) show ?thesis
      by (intro settle_serial_start [where w = w]) simp_all
  next
    case StartAwaitSubscribe
    with assms(3) obtain x where "r = start_subscribed x w" by (cases a) auto
    with StartAwaitSubscribe assms(1,2) show ?thesis
      by (intro settle_serial_start [where w = w]) simp_all
  next
    case ReadLoopAwaitRead
    with assms(3) obtain x where "r = readLoop_read x w" by (cases a) auto
    with ReadLoopAwaitRead assms(1,2) held show ?thesis
      by (intro settle_serial_start [where w = w]) simp_all
  next
    case (StopAwaitReaderCancel c)
    with assms(3) obtain x where "r = stop_reader_cancelled c x w" by (cases a) auto
    with StopAwaitReaderCancel assms(2) one stopped ex show ?thesis
      by (intro settle_serial_stop) (simp_all add: stop_reader_cancelled_post)
  next
    case (StopAwaitStreamCancel c)
    with assms(3) obtain x where "r = stop_stream_cancelled c x w" by (cases a) auto
    with StopAwaitStreamCancel assms(2) one stopped ex show ?thesis
      by (intro settle_serial_stop) (simp_all add: stop_stream_cancelled_post)
  next
    case RestartAwaitStop
    with assms(3) have "r = restart_resumed w" by (cases a) auto
    with RestartAwaitStop assms(2) one held show ?thesis
      by (intro settle_serial_stop) (simp_all add: restart_resumed_post)
  next
    case RefreshAwaitToken
    with assms(3) obtain x where "r = refresh_refreshed x w" by (cases a) auto
    with RefreshAwaitToken assms(2) one held show ?thesis
      by (intro settle_serial_stop) (simp_all add: refresh_refreshed_post)
  qed
qed

lemma step_serial:
  assumes "serial_inv c" "permitted a (snd c)" "step a c = Some c'"
  shows "serial_inv c'"
proof -
  obtain w ts where c: "c = (w, ts)" by (cases c)
  from assms(1) c have held: "handles_held w" by (simp add: serial_inv_def)
  show ?thesis
  proof (cases a)
    case CallStart
    with assms c held show ?thesis
      by (auto simp: permitted_def list_ex_filter intro!: spawn_serial stop_postI)
  next
    case CallStop
    with assms c show ?thesis
      by (auto simp: permitted_def list_ex_filter stop_def intro!: spawn_serial stop_from_post)
  next
    case CallRestart
    with assms c show ?thesis
      by (auto simp: permitted_def list_ex_filter restart_def intro!: spawn_serial stop_from_post)
  next
    case CallRefreshAndRestart
    with assms c show ?thesis
      by (cases "refreshToken w")
        (auto simp: permitted_def list_ex_filter refreshAndRestart_def spawn_def serial_inv_def
          filter_empty_conv dest: in_stop_pending split: if_splits)
  next
    case (CallSetTopic t)
    with assms c show ?thesis
      by (auto simp: serial_inv_def setTopic_def handles_held_def)
  next
    case CallClearMessages
    with assms c show ?thesis
      by (auto simp: serial_inv_def)
  next
    case (Answer i b)
    with assms c show ?thesis
      by (auto split: if_splits option.splits intro: resume_serial)
  qed
qed

lemma run_serial_inv:
  "serial_inv c \<Longrightarrow> run_serial acts c = Some c' \<Longrightarrow> serial_inv c'"
proof (induction acts arbitrary: c)
  case Nil
  then show ?case by simp
next
  case (Cons a acts)
  from Cons.prems(2) obtain c1 where p: "permitted a (snd c)" and s: "step a c = Some c1"
    and r: "run_serial acts c1 = Some c'"
    by (auto split: if_splits option.splits)
  from Cons.prems(1) p s have "serial_inv c1" by (rule step_serial)
  then show ?case using r by (rule Cons.IH)
qed

lemma constructor_serial: "serial_inv (constructor opts)"
proof -
  have "handles_held (new_manager opts)" by (simp add: handles_held_def new_manager_def)
  then have "serial_inv (spawn (start (new_manager opts)) [])"
    by (intro spawn_serial stop_postI) simp_all
  moreover have "serial_inv (new_manager opts, [])"
    using \<open>handles_held (new_manager opts)\<close> by (simp add: serial_inv_def)
  ultimately show ?thesis by (simp add: constructor_def)
qed

section \<open>The handler calls of the helpers\<close>

lemma calls_append [simp]:
  "onStateChange_calls (xs @ ys) = onStateChange_calls xs @ onStateChange_calls ys"
  "onError_calls (xs @ ys) = onError_calls xs @ onError_calls ys"
  "onChange_calls (xs @ ys) = onChange_calls xs @ onChange_calls ys"
  "onStop_calls (xs @ ys) = onStop_calls xs + onStop_calls ys"
  by (simp_all add: onStateChange_calls_def onError_calls_def onChange_calls_def onStop_calls_def)

lemma calls_single [simp]:
  "onStateChange_calls [] = []"
  "onStateChange_calls (ev # evs) =
     (case ev of OnStateChange s \<Rightarrow> [s] | _ \<Rightarrow> []) @ onStateChange_calls evs"
  "onError_calls [] = []"
  "onError_calls (ev # evs) = (case ev of OnError e \<Rightarrow> [e] | _ \<Rightarrow> []) @ onError_calls evs"
  "onChange_calls [] = []"
  "onChange_calls (ev # evs) =
     (case ev of OnChange v xs \<Rightarrow> [(v, xs)] | _ \<Rightarrow> []) @ onChange_calls evs"
  "onStop_calls [] = 0"
  "onStop_calls (ev # evs) = (if ev = OnStop then 1 else 0) + onStop_calls evs"
  by (simp_all add: onStateChange_calls_def onError_calls_def onChange_calls_def onStop_calls_def)

lemma updateState_handler_calls [simp]:
  "onStateChange_calls (calls (updateState s w)) =
     onStateChange_calls (calls w) @ (case onStateChange w of None \<Rightarrow> [] | Some h \<Rightarrow> [s])"
  "onError_calls (calls (updateState s w)) = onError_calls (calls w)"
  "onChange_calls (calls (updateState s w)) = onChange_calls (calls w)"
  "onStop_calls (calls (updateState s w)) = onStop_calls (calls w)"
  by (simp_all add: updateState_calls split: option.split completion.split)

lemma handleError_handler_calls [simp]:
  "onStateChange_calls (calls (handleError e w)) =
     onStateChange_calls (calls w) @ (case onStateChange w of None \<Rightarrow> [] | Some h \<Rightarrow> [Error])"
  "onError_calls (calls (handleError e w)) =
     onError_calls (calls w) @ (case onError w of None \<Rightarrow> [] | Some h \<Rightarrow> [e])"
  "onChange_calls (calls (handleError e w)) = onChange_calls (calls w)"
  "onStop_calls (calls (handleError e w)) = onStop_calls (calls w)"
  by (simp_all add: handleError_calls split: option.split completion.split)

section \<open>\<^verbatim>\<open>stop()\<close> always completes\<close>

lemma stop_done_direct [simp]: "stop_done Direct w = (Completed, w)"
  by (simp add: stop_done_def)

lemma stop_catch_direct: "fst (stop_catch Direct e w) = Completed"
  by (simp add: stop_catch_def)

lemma stop_finish_direct: "fst (stop_finish Direct w) = Completed"
  by (simp add: stop_finish_def Let_def)

lemma stop_stream_cancelled_direct: "fst (stop_stream_cancelled Direct r w) = Completed"
  by (simp add: stop_stream_cancelled_def stop_catch_direct stop_finish_direct
      split: completion.split)

lemma stop_stream_direct:
  "fst (stop_stream Direct w) = Completed \<or> fst (stop_stream Direct w) = Await (StopAwaitStreamCancel Direct)"
  by (simp add: stop_stream_def stop_finish_direct split: option.split)

lemma answer_stream_cancel_direct:
  "fst r = Completed \<or> fst r = Await (StopAwaitStreamCancel Direct) \<Longrightarrow>
     fst (answer_stream_cancel sc r) = Completed"
  by (auto simp: answer_stream_cancel_def stop_stream_cancelled_direct)

lemma stop_reader_cancelled_direct:
  "fst (stop_reader_cancelled Direct r w) = Completed
   \<or> fst (stop_reader_cancelled Direct r w) = Await (StopAwaitStreamCancel Direct)"
  using stop_stream_direct
  by (simp add: stop_reader_cancelled_def stop_catch_direct split: completion.split option.split)

lemma answer_reader_cancel_simps [simp]:
  "answer_reader_cancel rc (Await (StopAwaitReaderCancel c), w) = stop_reader_cancelled c rc w"
  "answer_reader_cancel rc (Await (StopAwaitStreamCancel c), w) = (Await (StopAwaitStreamCancel c), w)"
  "answer_reader_cancel rc (Await StartAwaitRefresh, w) = (Await StartAwaitRefresh, w)"
  "answer_reader_cancel rc (Await StartAwaitSubscribe, w) = (Await StartAwaitSubscribe, w)"
  "answer_reader_cancel rc (Await ReadLoopAwaitRead, w) = (Await ReadLoopAwaitRead, w)"
  "answer_reader_cancel rc (Await RestartAwaitStop, w) = (Await RestartAwaitStop, w)"
  "answer_reader_cancel rc (Await RefreshAwaitToken, w) = (Await RefreshAwaitToken, w)"
  "answer_reader_cancel rc (Completed, w) = (Completed, w)"
  "answer_reader_cancel rc (Failed e, w) = (Failed e, w)"
  by (simp_all add: answer_reader_cancel_def)

lemma answer_stream_cancel_simps [simp]:
  "answer_stream_cancel sc (Await (StopAwaitStreamCancel c), w) = stop_stream_cancelled c sc w"
  "answer_stream_cancel sc (Await StartAwaitRefresh, w) = (Await StartAwaitRefresh, w)"
  "answer_stream_cancel sc (Await StartAwaitSubscribe, w) = (Await StartAwaitSubscribe, w)"
  "answer_stream_cancel sc (Await ReadLoopAwaitRead, w) = (Await ReadLoopAwaitRead, w)"
  "answer_stream_cancel sc (Await RestartAwaitStop, w) = (Await RestartAwaitStop, w)"
  "answer_stream_cancel sc (Await RefreshAwaitToken, w) = (Await RefreshAwaitToken, w)"
  "answer_stream_cancel sc (Completed, w) = (Completed, w)"
  "answer_stream_cancel sc (Failed e, w) = (Failed e, w)"
  by (simp_all add: answer_stream_cancel_def)

lemma answer_reader_cancel_past:
  "fst r = Completed \<or> fst r = Await (StopAwaitStreamCancel c) \<Longrightarrow> answer_reader_cancel rc r = r"
  by (cases r) auto

lemma stop_run_completes: "fst (stop_run rc sc w) = Completed"
proof -
  have "fst (answer_reader_cancel rc (stop w)) = Completed
      \<or> fst (answer_reader_cancel rc (stop w)) = Await (StopAwaitStreamCancel Direct)"
  proof (cases "reader w")
    case None
    then have "stop w = stop_stream Direct (w\<lparr>isRunning := False\<rparr>)"
      by (simp add: stop_def stop_from_def)
    then show ?thesis
      using stop_stream_direct [of "w\<lparr>isRunning := False\<rparr>"]
      by (simp add: answer_reader_cancel_past)
  next
    case (Some rd)
    then have "stop w = (Await (StopAwaitReaderCancel Direct), w\<lparr>isRunning := False\<rparr>)"
      by (simp add: stop_def stop_from_def)
    then show ?thesis
      using stop_reader_cancelled_direct by simp
  qed
  then show ?thesis unfolding stop_run_def by (rule answer_stream_cancel_direct)
qed

lemma readLoop_read_status:
  "fst (readLoop_read (Returned (ReadValue v)) w) =
     (if isRunning w \<and> reader w \<noteq> None then Await ReadLoopAwaitRead else Completed)"
  by (auto simp: readLoop_read_def readLoop_next_def split: option.split)

section \<open>The capacity of a new manager\<close>

lemma start_connect_maxMessages [simp]: "maxMessages (snd (start_connect w)) = maxMessages w"
  by (simp add: start_connect_def split: option.split)

lemma start_maxMessages [simp]: "maxMessages (snd (start w)) = maxMessages w"
  by (simp add: start_def Let_def log_defs)

lemma spawn_fst [simp]: "fst (spawn r ts) = snd r"
  by (simp add: spawn_def split: status.split)

lemma constructor_maxMessages:
  "maxMessages (fst (constructor opts)) =
     (case opt_maxMessages opts of
        None \<Rightarrow> Finite 1000
      | Some n \<Rightarrow> if falsy n then Finite 1000 else n)"
  by (simp add: constructor_def new_manager_def)

section \<open>\<^verbatim>\<open>start()\<close> and \<^verbatim>\<open>restart()\<close> after a failure\<close>

lemma start_when_running:
  "isRunning w \<Longrightarrow> start w = (Completed, console_warn ''Subscription is already running'' w)"
  by (simp add: start_def)

lemma start_without_token:
  assumes "\<not> isRunning w" "token w = None" "\<not> refreshToken w"
  shows "start w =
    (Completed,
     handleError (JsError ''No token provided and no refreshToken function available'')
       (w\<lparr>isRunning := True\<rparr>))"
  using assms by (simp add: start_def start_connect_def Let_def)

lemma start_connect_token [simp]: "token (snd (start_connect w)) = token w"
  by (simp add: start_connect_def split: option.split)

lemma start_reconnecting:
  "\<not> isRunning w \<Longrightarrow> token w \<noteq> None \<or> refreshToken w \<Longrightarrow> reconnecting (start w)"
  by (auto simp: reconnecting_def start_def start_connect_def Let_def)

lemma clearMessages_token [simp]:
  "token (clearMessages w) = token w" "refreshToken (clearMessages w) = refreshToken w"
  by (simp_all add: clearMessages_def)

lemma failing_resume:
  assumes "resume p a w = Some r" "failing e a"
  shows "(p = ReadLoopAwaitRead \<and> r = (Completed, readLoop_catch e w))
     \<or> (p \<noteq> ReadLoopAwaitRead \<and>
         (r = (Completed, handleError e w)
          \<or> (\<exists>s. r = (Completed, handleError e (w\<lparr>subscription := Some s\<rparr>)))))"
  using assms
  by (induction p a w rule: resume.induct)
    (auto simp: start_refreshed_def start_subscribed_def readLoop_read_def refresh_refreshed_def
      Let_def split: completion.splits read_result.splits elim!: failing.elims)


section \<open>No block ends in a rejection\<close>



lemma stop_done_never_fails: "fst (stop_done c w) \<noteq> Failed e"
  by (simp add: stop_done_def split: caller.split)


lemma stop_finish_never_fails: "fst (stop_finish c w) \<noteq> Failed e"
  by (simp add: stop_finish_def Let_def stop_done_never_fails)

lemma stop_stream_never_fails: "fst (stop_stream c w) \<noteq> Failed e"
  by (simp add: stop_stream_def stop_finish_never_fails split: option.split)

lemma stop_from_never_fails: "fst (stop_from c w) \<noteq> Failed e"
  by (simp add: stop_from_def Let_def stop_stream_never_fails split: option.split)







lemma refresh_refreshed_restarts:
  "refresh_refreshed (Returned t) w = restart (w\<lparr>token := Some t\<rparr>)"
proof -
  obtain st w' where res: "stop_from FromRestart (w\<lparr>token := Some t\<rparr>) = (st, w')"
    by (cases "stop_from FromRestart (w\<lparr>token := Some t\<rparr>)")
  with stop_from_never_fails [of FromRestart "w\<lparr>token := Some t\<rparr>"]
  have "st \<noteq> Failed x" for x by simp
  with res show ?thesis
    by (cases st) (auto simp: refresh_refreshed_def restart_def)
qed


section \<open>The buffer under accepted and rejected messages\<close>

lemma messages_now_eq: "messages_now w = arrays w (messages w)"
  by (simp add: messages_now_def getMessages_def)






lemma accepted_fields [simp]:
  "topic (dispatch_onChange v (trim_messages (push_message v w))) = topic w"
  "onChange (dispatch_onChange v (trim_messages (push_message v w))) = onChange w"
  "maxMessages (dispatch_onChange v (trim_messages (push_message v w))) = maxMessages w"
  by (simp_all add: dispatch_onChange_def trim_messages_def push_message_def
      Let_def log_defs split: completion.split)







section \<open>\<^verbatim>\<open>stop()\<close> and \<^verbatim>\<open>restart()\<close> run to their end\<close>

lemma stop_finish_direct_fields:
  "state (snd (stop_finish Direct w)) = Closed"
  "isRunning (snd (stop_finish Direct w)) = isRunning w"
  "reader (snd (stop_finish Direct w)) = reader w"
  "subscription (snd (stop_finish Direct w)) = subscription w"
  "onStop_calls (calls (snd (stop_finish Direct w))) =
     onStop_calls (calls w) + (case onStop w of None \<Rightarrow> 0 | Some h \<Rightarrow> 1)"
  by (simp_all add: stop_finish_def Let_def log_defs split: option.split completion.split)

lemma answer_stream_cancel_completed:
  "fst r = Completed \<Longrightarrow> answer_stream_cancel sc r = r"
  by (cases r) simp

lemma stop_run_clean:
  assumes "case reader w of None \<Rightarrow> True | Some rd \<Rightarrow> releaseLock rd = Returned ()"
  shows "state (snd (stop_run (Returned ()) (Returned ()) w)) = Closed"
    and "\<not> isRunning (snd (stop_run (Returned ()) (Returned ()) w))"
    and "reader (snd (stop_run (Returned ()) (Returned ()) w)) = None"
    and "subscription (snd (stop_run (Returned ()) (Returned ()) w)) = None"
    and "onStop_calls (calls (snd (stop_run (Returned ()) (Returned ()) w))) =
      onStop_calls (calls w) + (case onStop w of None \<Rightarrow> 0 | Some h \<Rightarrow> 1)"
  using assms
  by (cases "reader w"; cases "subscription w";
      simp add: stop_run_def stop_def stop_from_def stop_stream_def
        stop_reader_cancelled_def stop_stream_cancelled_def stop_finish_direct
        stop_finish_direct_fields answer_reader_cancel_past answer_stream_cancel_completed)+

lemma stop_run_not_running: "\<not> isRunning (snd (stop_run rc sc w))"
proof -
  have fin: "\<not> isRunning (snd (stop_finish Direct x))" if "\<not> isRunning x" for x
    using that by (simp add: stop_finish_direct_fields)
  have cat: "\<not> isRunning (snd (stop_catch Direct e x))" if "\<not> isRunning x" for x e
    using that by (simp add: stop_catch_def log_defs)
  have sc: "\<not> isRunning (snd (answer_stream_cancel sc (stop_stream Direct x)))"
    if "\<not> isRunning x" for x
    using that
    by (cases "subscription x")
      (simp_all add: stop_stream_def stop_stream_cancelled_def fin cat
        answer_stream_cancel_completed stop_finish_direct split: completion.split)
  show ?thesis
  proof (cases "reader w")
    case None
    have "answer_reader_cancel rc (stop_stream Direct (w\<lparr>isRunning := False\<rparr>))
        = stop_stream Direct (w\<lparr>isRunning := False\<rparr>)"
      using stop_stream_direct [of "w\<lparr>isRunning := False\<rparr>"]
      by (rule answer_reader_cancel_past)
    with None show ?thesis
      by (simp add: stop_run_def stop_def stop_from_def sc)
  next
    case (Some rd)
    then show ?thesis
      by (simp add: stop_run_def stop_def stop_from_def stop_reader_cancelled_def sc cat
          answer_stream_cancel_completed stop_catch_direct
          split: completion.split)
  qed
qed

lemma start_buffer [simp]: "messages_now (snd (start w)) = messages_now w"
  by (simp add: start_def start_connect_def Let_def messages_now_eq log_defs split: option.split)

lemma restart_stopped:
  "fst (answer_stream_cancel sc (answer_reader_cancel rc (restart w))) = Await RestartAwaitStop"
  "\<not> isRunning (snd (answer_stream_cancel sc (answer_reader_cancel rc (restart w))))"
  "token (snd (answer_stream_cancel sc (answer_reader_cancel rc (restart w)))) = token w"
  "refreshToken (snd (answer_stream_cancel sc (answer_reader_cancel rc (restart w)))) =
     refreshToken w"
  by (cases "reader w"; cases "subscription w"; cases rc; cases sc;
      simp add: restart_def stop_from_def stop_stream_def stop_reader_cancelled_def
        stop_stream_cancelled_def stop_catch_def stop_finish_def stop_done_def Let_def log_defs
      split: option.split completion.split)+

lemma restart_run_eq:
  "restart_run rc sc w =
     start (clearMessages (snd (answer_stream_cancel sc (answer_reader_cancel rc (restart w)))))"
  by (simp add: restart_run_def answer_resumed_def restart_stopped(1) restart_resumed_def)

lemma restart_run_reconnecting:
  assumes "token w \<noteq> None \<or> refreshToken w"
  shows "reconnecting (restart_run rc sc w)"
  unfolding restart_run_eq
  using assms by (intro start_reconnecting) (simp_all add: restart_stopped)

lemma clearMessages_buffer: "messages_now (clearMessages w) = []"
  by (simp add: messages_now_eq clearMessages_def)

lemma restart_run_buffer: "messages_now (snd (restart_run rc sc w)) = []"
  by (simp add: restart_run_eq clearMessages_buffer)

lemma refreshAndRestart_run_restarts:
  "refreshToken w \<Longrightarrow>
     refreshAndRestart_run (Returned t) rc sc w = restart_run rc sc (w\<lparr>token := Some t\<rparr>)"
  by (simp add: refreshAndRestart_run_def restart_run_def refreshAndRestart_def answer_token_def
      refresh_refreshed_restarts)

lemma refreshAndRestart_run_reconnecting:
  "refreshToken w \<Longrightarrow> reconnecting (refreshAndRestart_run (Returned t) rc sc w)"
  by (simp add: refreshAndRestart_run_restarts restart_run_reconnecting)

section \<open>The claims\<close>

lemmas model_defs =
  constructor_def new_manager_def spawn_def settle_def connected_def
  start_def start_connect_def start_refreshed_def start_subscribed_def
  readLoop_def readLoop_next_def readLoop_read_def readLoop_exit_def readLoop_catch_def
  topic_rejects_def exceeds_def js_negate_def js_truncate_def js_slice_def falsy_def
  push_message_def trim_messages_def dispatch_onChange_def
  stop_def stop_from_def stop_stream_def stop_finish_def stop_done_def stop_catch_def
  stop_reader_cancelled_def stop_stream_cancelled_def restart_def restart_resumed_def
  clearMessages_def refreshAndRestart_def refresh_refreshed_def setTopic_def
  updateState_def handleError_def notify_def console_warn_def console_error_def
  Let_def
  sample_options_def sample_stream_def sample_reader_def keeps_def
  updateState_fields handleError_fields quiet_fields topic_rejects_quiet quiet_idem
  handles_held_updateState handles_held_handleError handles_held_calls status_simps
  start_connect_inv start_inv start_refreshed_inv readLoop_exit_inv handles_held_readLoop_exit
  readLoop_catch_inv readLoop_next_inv readLoop_inv start_subscribed_inv accept_fields
  handles_held_accept readLoop_read_inv calls_append calls_single updateState_handler_calls
  handleError_handler_calls stop_done_direct answer_reader_cancel_simps
  answer_stream_cancel_simps start_connect_maxMessages start_maxMessages spawn_fst
  start_connect_token clearMessages_token accepted_fields start_buffer

subsection \<open>C3: state Active and the handles\<close>

text \<open>
  C3 as stated fails. \<^verbatim>\<open>stop()\<close> clears \<^verbatim>\<open>isRunning\<close> in its first statement
  (line 141) and changes the state only after both cancellations have been awaited (line 155):
  while it waits for \<^verbatim>\<open>reader.cancel()\<close> the manager is in state \<open>Active\<close> with
  \<^verbatim>\<open>isRunning\<close> false. The first run below builds a manager, lets \<^verbatim>\<open>subscribe\<close>
  answer and calls \<^verbatim>\<open>stop()\<close>; two tasks are then waiting, the read loop and the
  \<^verbatim>\<open>stop()\<close>. In the second run \<^verbatim>\<open>stop()\<close> is called, and completes, while the
  \<^verbatim>\<open>start()\<close> of the constructor still waits for \<^verbatim>\<open>subscribe\<close>; when that answers,
  \<^verbatim>\<open>start\<close> goes on to \<^verbatim>\<open>updateState(Active)\<close> (line 128), which no test of
  \<^verbatim>\<open>isRunning\<close> guards, and its loop ends at once: nothing is waiting any more, and the
  manager is in state \<open>Active\<close> with \<^verbatim>\<open>isRunning\<close> false. In the third run
  \<^verbatim>\<open>start()\<close> is called while a \<^verbatim>\<open>stop()\<close> waits for \<^verbatim>\<open>reader.cancel()\<close>, and
  \<^verbatim>\<open>subscribe\<close> answers first: the manager is running in state \<open>Active\<close> again when
  the \<^verbatim>\<open>stop()\<close> goes on to clear the reader (line 147), so the reader is missing too.
\<close>

theorem active_without_running_counterexample:
  "map_option (\<lambda>c. (state (fst c), isRunning (fst c), snd c))
     (run_serial [Answer 0 (StreamAnswer (Returned sample_stream)), CallStop]
        (constructor sample_options))
   = Some (Active, False, [ReadLoopAwaitRead, StopAwaitReaderCancel Direct])
   \<and> map_option (\<lambda>c. (state (fst c), isRunning (fst c), snd c))
     (run_serial [CallStop, Answer 0 (StreamAnswer (Returned sample_stream))]
        (constructor sample_options))
   = Some (Active, False, [])
   \<and> map_option (\<lambda>c. (state (fst c), isRunning (fst c), reader (fst c), snd c))
     (run [Answer 0 (StreamAnswer (Returned sample_stream)), CallStop, CallStart,
           Answer 2 (StreamAnswer (Returned sample_stream)),
           Answer 1 (CancelAnswer (Returned ()))]
        (constructor sample_options))
   = Some (Active, True, None,
       [ReadLoopAwaitRead, StopAwaitStreamCancel Direct, ReadLoopAwaitRead])"
  by (simp add: model_defs permitted_def)

text \<open>
  C3, amended: in every state reached from a new manager by lifecycle calls, accessor calls
  and answers to the awaited calls, in any order in which no lifecycle method
  (\<^verbatim>\<open>start\<close>, \<^verbatim>\<open>stop\<close>, \<^verbatim>\<open>restart\<close>, \<^verbatim>\<open>refreshAndRestart\<close>) is called while a
  \<^verbatim>\<open>stop()\<close> is still waiting, nor while a \<^verbatim>\<open>restart()\<close> has not yet gone on from
  its \<^verbatim>\<open>stop()\<close> to its \<^verbatim>\<open>start()\<close>, nor while a \<^verbatim>\<open>refreshAndRestart()\<close> waits
  for the credential, a manager that is running (\<^verbatim>\<open>isRunning\<close>) in state \<open>Active\<close>
  holds both the reader and the stream.
\<close>

theorem active_and_running_holds_handles:
  assumes "run_serial acts (constructor opts) = Some (w, ts)"
    and "isRunning w" and "state w = Active"
  shows "reader w \<noteq> None \<and> subscription w \<noteq> None"
proof -
  have "serial_inv (w, ts)"
    using constructor_serial assms(1) by (rule run_serial_inv)
  then have "handles_held w" by (simp add: serial_inv_def)
  with assms(2,3) show ?thesis by (simp add: handles_held_def)
qed

theorem active_and_running_holds_handles_witness:
  "\<exists>w ts. run_serial [Answer 0 (StreamAnswer (Returned sample_stream))]
             (constructor sample_options) = Some (w, ts)
     \<and> isRunning w \<and> state w = Active \<and> reader w \<noteq> None \<and> subscription w \<noteq> None"
proof -
  have "map_option (\<lambda>c. (isRunning (fst c), state (fst c)))
          (run_serial [Answer 0 (StreamAnswer (Returned sample_stream))]
             (constructor sample_options)) = Some (True, Active)"
    by (simp add: model_defs permitted_def)
  then obtain w ts where r: "run_serial [Answer 0 (StreamAnswer (Returned sample_stream))]
             (constructor sample_options) = Some (w, ts)"
    and f: "isRunning w" "state w = Active"
    by auto
  from active_and_running_holds_handles [OF r f] r f show ?thesis by blast
qed

subsection \<open>C7: a throwing handler aborts nothing\<close>

text \<open>
  C7: every call of a user handler (\<^verbatim>\<open>onChange\<close>, \<^verbatim>\<open>onError\<close>, \<^verbatim>\<open>onStateChange\<close>,
  \<^verbatim>\<open>onStop\<close>) is wrapped in its own \<^verbatim>\<open>try\<close>, so a handler that throws aborts nothing.
  Whatever is called and answered, in any order, the manager whose handlers throw goes through
  the same states, buffers the same messages, makes the same handler calls and leaves the same
  tasks waiting as the manager whose handlers return instead (\<open>quiet\<close>); only the
  console lines that report the throw differ. Every \<^verbatim>\<open>updateState\<close> sets the state
  and calls \<^verbatim>\<open>onStateChange\<close>, when there is one, exactly once with the new state; the
  read loop goes on to its next \<^verbatim>\<open>read()\<close> after any message while the manager runs and
  holds a reader; the error path ends in state \<open>Error\<close> having called \<^verbatim>\<open>onError\<close>
  once; and \<^verbatim>\<open>stop()\<close> completes.
\<close>

theorem throwing_handlers_abort_nothing:
  "run acts (quiet w, ts) = map_option (apfst quiet) (run acts (w, ts))
   \<and> state (updateState s w) = s
   \<and> onStateChange_calls (calls (updateState s w)) =
       onStateChange_calls (calls w) @ (case onStateChange w of None \<Rightarrow> [] | Some h \<Rightarrow> [s])
   \<and> fst (readLoop_read (Returned (ReadValue v)) w) =
       (if isRunning w \<and> reader w \<noteq> None then Await ReadLoopAwaitRead else Completed)
   \<and> state (handleError e w) = Error
   \<and> onError_calls (calls (handleError e w)) =
       onError_calls (calls w) @ (case onError w of None \<Rightarrow> [] | Some h \<Rightarrow> [e])
   \<and> fst (stop_run rc sc w) = Completed"
  by (simp add: quiet_run readLoop_read_status stop_run_completes)


theorem throwing_handlers_abort_nothing_witness:
  "map_option (\<lambda>c. (state (fst c), isRunning (fst c), arrays (fst c) (messages (fst c)),
            onStateChange_calls (calls (fst c)), length (onChange_calls (calls (fst c))),
            onStop_calls (calls (fst c)), snd c))
     (run [Answer 0 (StreamAnswer (Returned sample_stream)),
           Answer 0 (ReadAnswer (Returned (ReadValue (Message ''a'' 1)))),
           Answer 0 (ReadAnswer (Returned (ReadValue (Message ''a'' 2)))),
           CallStop, Answer 1 (CancelAnswer (Returned ())), Answer 1 (CancelAnswer (Returned ()))]
        (constructor throwing_options))
   = Some (Closed, False, [Message ''a'' 1, Message ''a'' 2],
           [Connecting, Active, Closed], 2, 1, [ReadLoopAwaitRead])
   \<and> run [CallStop] (quiet (connected throwing_options), [ReadLoopAwaitRead])
     = map_option (apfst quiet) (run [CallStop] (connected throwing_options, [ReadLoopAwaitRead]))"
proof -
  have "run [CallStop] (quiet (connected throwing_options), [ReadLoopAwaitRead])
     = map_option (apfst quiet) (run [CallStop] (connected throwing_options, [ReadLoopAwaitRead]))"
    using throwing_handlers_abort_nothing
      [of "[CallStop]" "connected throwing_options" "[ReadLoopAwaitRead]"]
    by simp
  then show ?thesis
    by (simp add: model_defs throwing_options_def)
qed

subsection \<open>C10: a capacity of zero\<close>

text \<open>
  C10: \<^verbatim>\<open>options.maxMessages || 1000\<close> (line 93) takes the default for every falsy value.
  A manager constructed with \<^verbatim>\<open>maxMessages\<close> 0, like one constructed without the option,
  has capacity 1000, and no options give a manager of capacity 0. The same holds of
  \<^verbatim>\<open>NaN\<close>, the other number that is falsy.
\<close>

theorem zero_capacity_is_default:
  "maxMessages (fst (constructor (opts\<lparr>opt_maxMessages := Some (Finite 0)\<rparr>))) = Finite 1000
   \<and> maxMessages (fst (constructor (opts\<lparr>opt_maxMessages := None\<rparr>))) = Finite 1000
   \<and> maxMessages (fst (constructor opts)) \<noteq> Finite 0
   \<and> maxMessages (fst (constructor (opts\<lparr>opt_maxMessages := Some NaN\<rparr>))) = Finite 1000
   \<and> maxMessages (fst (constructor opts)) \<noteq> NaN"
  by (simp add: constructor_maxMessages falsy_def split: option.split)

theorem zero_capacity_is_default_witness:
  "maxMessages (fst (constructor (sample_options\<lparr>opt_maxMessages := Some (Finite 0)\<rparr>)))
     = Finite 1000
   \<and> maxMessages (fst (constructor (sample_options\<lparr>opt_maxMessages := Some (Finite 5)\<rparr>)))
     = Finite 5"
  using zero_capacity_is_default [of sample_options]
  by (simp add: model_defs)

subsection \<open>C8: the stream ends while the manager runs\<close>

text \<open>
  C8: when \<^verbatim>\<open>read()\<close> answers \<^verbatim>\<open>done\<close> while \<^verbatim>\<open>isRunning\<close> is still true, the loop
  ends (lines 246-248), the state becomes \<open>Closed\<close> (lines 277-279), the call of
  \<^verbatim>\<open>start\<close> completes, and \<^verbatim>\<open>onError\<close> is not called.
\<close>

theorem stream_end_closes:
  assumes "isRunning w"
  shows "fst (readLoop_read (Returned ReadDone) w) = Completed
    \<and> state (snd (readLoop_read (Returned ReadDone) w)) = Closed
    \<and> onError_calls (calls (snd (readLoop_read (Returned ReadDone) w))) = onError_calls (calls w)"
  using assms by (simp add: readLoop_read_def readLoop_exit_def)

theorem stream_end_closes_witness:
  "isRunning (connected sample_options)
   \<and> onError_calls (calls (connected sample_options)) = []
   \<and> state (snd (readLoop_read (Returned ReadDone) (connected sample_options))) = Closed
   \<and> onError_calls (calls (snd (readLoop_read (Returned ReadDone) (connected sample_options)))) = []
   \<and> map_option (\<lambda>c. (state (fst c), onError_calls (calls (fst c)), snd c))
        (run [Answer 0 (StreamAnswer (Returned sample_stream)),
              Answer 0 (ReadAnswer (Returned (ReadValue (Message ''a'' 1)))),
              Answer 0 (ReadAnswer (Returned ReadDone))]
           (constructor sample_options))
      = Some (Closed, [], [])"
proof -
  have r: "isRunning (connected sample_options)" by (simp add: model_defs)
  have e: "onError_calls (calls (connected sample_options)) = []" by (simp add: model_defs)
  have "map_option (\<lambda>c. (state (fst c), onError_calls (calls (fst c)), snd c))
        (run [Answer 0 (StreamAnswer (Returned sample_stream)),
              Answer 0 (ReadAnswer (Returned (ReadValue (Message ''a'' 1)))),
              Answer 0 (ReadAnswer (Returned ReadDone))]
           (constructor sample_options))
      = Some (Closed, [], [])"
    by (simp add: model_defs)
  with stream_end_closes [OF r] r e show ?thesis by simp
qed

subsection \<open>C9: after the error path, \<^verbatim>\<open>start()\<close> does nothing\<close>

text \<open>
  C9 as stated fails when \<^verbatim>\<open>stop()\<close> has been called while \<^verbatim>\<open>start()\<close> waited. The
  \<^verbatim>\<open>catch\<close> of \<^verbatim>\<open>start\<close> (lines 132-134) runs \<^verbatim>\<open>handleError\<close> whatever
  \<^verbatim>\<open>isRunning\<close> is. In the run below \<^verbatim>\<open>stop()\<close> is called, and completes, while the
  \<^verbatim>\<open>start()\<close> of the constructor waits for \<^verbatim>\<open>subscribe\<close>, which then rejects: the
  error path leaves state \<open>Error\<close> with \<^verbatim>\<open>isRunning\<close> false. A call of
  \<^verbatim>\<open>start()\<close> on that manager writes no warning: it sets \<^verbatim>\<open>isRunning\<close>, moves to
  \<open>Connecting\<close> and waits for \<^verbatim>\<open>subscribe\<close> again.
\<close>

theorem start_after_stopped_failure_counterexample:
  "map_option (\<lambda>c. (state (fst c), isRunning (fst c), calls (fst c), snd c))
     (run_serial [CallStop, Answer 0 (StreamAnswer (Thrown (JsError ''down'')))]
        (constructor sample_options))
   = Some (Error, False,
       [OnStateChange Connecting, OnStateChange Closed, OnStop, OnStateChange Error,
        OnError (JsError ''down'')], [])
   \<and> map_option (\<lambda>c. (state (fst c), isRunning (fst c), calls (fst c), snd c))
     (run_serial [CallStop, Answer 0 (StreamAnswer (Thrown (JsError ''down''))), CallStart]
        (constructor sample_options))
   = Some (Connecting, True,
       [OnStateChange Connecting, OnStateChange Closed, OnStop, OnStateChange Error,
        OnError (JsError ''down''), OnStateChange Connecting], [StartAwaitSubscribe])"
  by (simp add: model_defs permitted_def)

text \<open>
  C9, amended: \<^verbatim>\<open>handleError\<close> (lines 298-307) does not touch \<^verbatim>\<open>isRunning\<close>, which
  \<^verbatim>\<open>start\<close> set at line 109. When an awaited call fails (the credential fetch,
  \<^verbatim>\<open>subscribe\<close>, \<^verbatim>\<open>getReader\<close> or \<^verbatim>\<open>read\<close>) while \<^verbatim>\<open>isRunning\<close> is still
  true, that is, no \<^verbatim>\<open>stop()\<close> has been called in the meantime, the call completes in state
  \<open>Error\<close> with \<^verbatim>\<open>isRunning\<close> still true; so does a \<^verbatim>\<open>start()\<close> that finds neither
  a token nor a credential function (lines 118-122), in its first block. A call of
  \<^verbatim>\<open>start()\<close> on that manager then only writes the warning: it completes at once,
  waits for nothing and changes no field.
  \<^verbatim>\<open>restart()\<close>, run to the first \<^verbatim>\<open>await\<close> of its \<^verbatim>\<open>start()\<close> whatever the
  cancellations answer, has cleared \<^verbatim>\<open>isRunning\<close> in its \<^verbatim>\<open>stop()\<close> and is making a
  connection attempt, provided there is a token or a credential function. So is
  \<^verbatim>\<open>refreshAndRestart()\<close>, run likewise, when there is a credential function and it
  answers with a token; without a credential function \<^verbatim>\<open>refreshAndRestart()\<close> rejects and
  leaves the manager as it is.
\<close>

theorem error_leaves_running:
  assumes "resume p a w = Some r" and "failing e a" and "isRunning w"
  shows "fst r = Completed \<and> state (snd r) = Error \<and> isRunning (snd r)
    \<and> start (snd r) = (Completed, console_warn ''Subscription is already running'' (snd r))
    \<and> (token w \<noteq> None \<or> refreshToken w \<longrightarrow> reconnecting (restart_run rc sc (snd r)))
    \<and> (refreshToken w \<longrightarrow> reconnecting (refreshAndRestart_run (Returned t) rc sc (snd r)))
    \<and> (\<not> refreshToken w \<longrightarrow>
         refreshAndRestart (snd r) =
           (Failed (JsError ''No refreshToken function available''), snd r))
    \<and> (\<not> isRunning v \<and> token v = None \<and> \<not> refreshToken v \<longrightarrow>
         fst (start v) = Completed \<and> state (snd (start v)) = Error \<and> isRunning (snd (start v))
         \<and> start (snd (start v)) =
             (Completed, console_warn ''Subscription is already running'' (snd (start v))))"
proof -
  from failing_resume [OF assms(1,2)] assms(3)
  have r: "r = (Completed, handleError e w)
      \<or> (\<exists>s. r = (Completed, handleError e (w\<lparr>subscription := Some s\<rparr>)))"
    by (auto simp: readLoop_catch_def)
  then have f: "fst r = Completed" "state (snd r) = Error" "isRunning (snd r)"
    "token (snd r) = token w" "refreshToken (snd r) = refreshToken w"
    using assms(3) by auto
  from f(3) have "start (snd r) = (Completed, console_warn ''Subscription is already running'' (snd r))"
    by (rule start_when_running)
  moreover have "reconnecting (restart_run rc sc (snd r))" if "token w \<noteq> None \<or> refreshToken w"
    using that f(4,5) by (intro restart_run_reconnecting) simp
  moreover have "reconnecting (refreshAndRestart_run (Returned t) rc sc (snd r))"
    if "refreshToken w"
    using that f(5) by (intro refreshAndRestart_run_reconnecting) simp
  moreover have "refreshAndRestart (snd r) =
      (Failed (JsError ''No refreshToken function available''), snd r)"
    if "\<not> refreshToken w"
    using that f(5) by (simp add: refreshAndRestart_def)
  moreover have "fst (start v) = Completed \<and> state (snd (start v)) = Error
      \<and> isRunning (snd (start v))
      \<and> start (snd (start v)) =
          (Completed, console_warn ''Subscription is already running'' (snd (start v)))"
    if "\<not> isRunning v" "token v = None" "\<not> refreshToken v"
    by (simp add: start_without_token [OF that] start_when_running)
  ultimately show ?thesis using f by blast
qed

theorem error_leaves_running_witness:
  "resume StartAwaitSubscribe (StreamAnswer (Thrown (JsError ''down'')))
       (fst (constructor sample_options))
     = Some (start_subscribed (Thrown (JsError ''down'')) (fst (constructor sample_options)))
   \<and> isRunning (fst (constructor sample_options))
   \<and> reconnecting (restart_run (Returned ()) (Returned ())
        (snd (start_subscribed (Thrown (JsError ''down'')) (fst (constructor sample_options)))))
   \<and> refreshAndRestart
        (snd (start_subscribed (Thrown (JsError ''down'')) (fst (constructor sample_options))))
      = (Failed (JsError ''No refreshToken function available''),
         snd (start_subscribed (Thrown (JsError ''down'')) (fst (constructor sample_options))))
   \<and> reconnecting (refreshAndRestart_run (Returned (Token 8)) (Returned ()) (Returned ())
        (snd (start_subscribed (Thrown (JsError ''down''))
           (fst (constructor (sample_options\<lparr>opt_refreshToken := True\<rparr>))))))
   \<and> map_option (\<lambda>c. (state (fst c), isRunning (fst c), calls (fst c), snd c))
        (run [CallStart]
           (constructor (sample_options\<lparr>opt_token := None, opt_autoStart := Some False\<rparr>)))
      = Some (Error, True,
          [OnStateChange Error,
           OnError (JsError ''No token provided and no refreshToken function available'')], [])
   \<and> start (snd (start
          (fst (constructor (sample_options\<lparr>opt_token := None, opt_autoStart := Some False\<rparr>)))))
      = (Completed, console_warn ''Subscription is already running'' (snd (start
          (fst (constructor (sample_options\<lparr>opt_token := None, opt_autoStart := Some False\<rparr>))))))
   \<and> map_option (\<lambda>c. (state (fst c), isRunning (fst c), calls (fst c), snd c))
        (run [Answer 0 (StreamAnswer (Thrown (JsError ''down''))), CallStart]
           (constructor sample_options))
      = Some (Error, True,
          [OnStateChange Connecting, OnStateChange Error, OnError (JsError ''down''),
           ConsoleWarn ''Subscription is already running''], [])
   \<and> map_option (\<lambda>c. (state (fst c), isRunning (fst c), snd c))
        (run [Answer 0 (StreamAnswer (Thrown (JsError ''down''))), CallRestart, Answer 0 Resumed]
           (constructor sample_options))
      = Some (Connecting, True, [StartAwaitSubscribe])
   \<and> map_option (\<lambda>c. (state (fst c), isRunning (fst c), token (fst c), snd c))
        (run [Answer 0 (StreamAnswer (Thrown (JsError ''down''))), CallRefreshAndRestart,
              Answer 0 (TokenAnswer (Returned (Token 8))), Answer 0 Resumed]
           (constructor (sample_options\<lparr>opt_refreshToken := True\<rparr>)))
      = Some (Connecting, True, Some (Token 8), [StartAwaitSubscribe])"
proof -
  let ?e = "JsError ''down''"
  let ?w = "fst (constructor sample_options)"
  let ?v = "fst (constructor (sample_options\<lparr>opt_refreshToken := True\<rparr>))"
  let ?u = "fst (constructor (sample_options\<lparr>opt_token := None, opt_autoStart := Some False\<rparr>))"
  have a: "resume StartAwaitSubscribe (StreamAnswer (Thrown ?e)) ?w
     = Some (start_subscribed (Thrown ?e) ?w)"
    by simp
  have a': "resume StartAwaitSubscribe (StreamAnswer (Thrown ?e)) ?v
     = Some (start_subscribed (Thrown ?e) ?v)"
    by simp
  have b: "failing ?e (StreamAnswer (Thrown ?e))" by simp
  have c: "isRunning ?w" "isRunning ?v" by (simp_all add: model_defs)
  have d: "token ?w \<noteq> None" "\<not> refreshToken ?w" "refreshToken ?v"
    by (simp_all add: model_defs)
  have u: "\<not> isRunning ?u" "token ?u = None" "\<not> refreshToken ?u"
    by (simp_all add: model_defs)
  from error_leaves_running [OF a b c(1), of "Returned ()" "Returned ()" _ ?u] d u
  have "reconnecting (restart_run (Returned ()) (Returned ())
        (snd (start_subscribed (Thrown ?e) ?w)))"
    and "refreshAndRestart (snd (start_subscribed (Thrown ?e) ?w))
      = (Failed (JsError ''No refreshToken function available''),
         snd (start_subscribed (Thrown ?e) ?w))"
    and "start (snd (start ?u))
      = (Completed, console_warn ''Subscription is already running'' (snd (start ?u)))"
    by simp_all
  moreover from error_leaves_running [OF a' b c(2), of "Returned ()" "Returned ()" "Token 8"] d
  have "reconnecting (refreshAndRestart_run (Returned (Token 8)) (Returned ()) (Returned ())
        (snd (start_subscribed (Thrown ?e) ?v)))"
    by simp
  moreover have "map_option (\<lambda>c. (state (fst c), isRunning (fst c), calls (fst c), snd c))
        (run [CallStart]
           (constructor (sample_options\<lparr>opt_token := None, opt_autoStart := Some False\<rparr>)))
      = Some (Error, True,
          [OnStateChange Error,
           OnError (JsError ''No token provided and no refreshToken function available'')], [])"
    by (simp add: model_defs)
  moreover have "map_option (\<lambda>c. (state (fst c), isRunning (fst c), calls (fst c), snd c))
        (run [Answer 0 (StreamAnswer (Thrown ?e)), CallStart] (constructor sample_options))
      = Some (Error, True,
          [OnStateChange Connecting, OnStateChange Error, OnError ?e,
           ConsoleWarn ''Subscription is already running''], [])"
    by (simp add: model_defs)
  moreover have "map_option (\<lambda>c. (state (fst c), isRunning (fst c), snd c))
        (run [Answer 0 (StreamAnswer (Thrown ?e)), CallRestart, Answer 0 Resumed]
           (constructor sample_options))
      = Some (Connecting, True, [StartAwaitSubscribe])"
    by (simp add: model_defs)
  moreover have "map_option (\<lambda>c. (state (fst c), isRunning (fst c), token (fst c), snd c))
        (run [Answer 0 (StreamAnswer (Thrown ?e)), CallRefreshAndRestart,
              Answer 0 (TokenAnswer (Returned (Token 8))), Answer 0 Resumed]
           (constructor (sample_options\<lparr>opt_refreshToken := True\<rparr>)))
      = Some (Connecting, True, Some (Token 8), [StartAwaitSubscribe])"
    by (simp add: model_defs)
  ultimately show ?thesis using a c(1) by simp
qed

subsection \<open>C5: failures of the awaited calls\<close>




subsection \<open>C4: the buffer keeps the most recent messages\<close>




subsection \<open>C6: the topic filter\<close>




subsection \<open>C1: \<^verbatim>\<open>stop()\<close> when a cancellation throws\<close>

text \<open>
  C1 holds of the code except where it says "including when cancellation of the reader or the
  stream throws". The cancellations, the two assignments of \<^verbatim>\<open>null\<close>, the transition and
  the \<^verbatim>\<open>onStop\<close> call all stand in one \<^verbatim>\<open>try\<close> block (lines 143-164) whose
  \<^verbatim>\<open>catch\<close> only logs: a cancellation that throws skips everything after it.
  The manager below is in state \<open>Active\<close> and holds a reader and a stream. When
  \<^verbatim>\<open>reader.cancel()\<close> rejects, \<^verbatim>\<open>stop()\<close> completes with both handles still held, the
  state still \<open>Active\<close>, no \<^verbatim>\<open>onStateChange\<close> call and no \<^verbatim>\<open>onStop\<close> call; when
  only \<^verbatim>\<open>subscription.cancel()\<close> rejects, the reader is cleared and the rest is the same.
\<close>

theorem stop_skips_release_when_cancel_throws:
  "fst (stop_run (Thrown (JsError ''cancel'')) (Returned ()) (connected sample_options)) = Completed
   \<and> state (snd (stop_run (Thrown (JsError ''cancel'')) (Returned ()) (connected sample_options)))
       = Active
   \<and> reader (snd (stop_run (Thrown (JsError ''cancel'')) (Returned ()) (connected sample_options)))
       = Some sample_reader
   \<and> subscription
        (snd (stop_run (Thrown (JsError ''cancel'')) (Returned ()) (connected sample_options)))
       = Some sample_stream
   \<and> calls (snd (stop_run (Thrown (JsError ''cancel'')) (Returned ()) (connected sample_options)))
       = [OnStateChange Connecting, OnStateChange Active,
          ConsoleError ''Error stopping subscription:'' (JsError ''cancel'')]
   \<and> state (snd (stop_run (Returned ()) (Thrown (JsError ''cancel'')) (connected sample_options)))
       = Active
   \<and> reader (snd (stop_run (Returned ()) (Thrown (JsError ''cancel'')) (connected sample_options)))
       = None
   \<and> subscription
        (snd (stop_run (Returned ()) (Thrown (JsError ''cancel'')) (connected sample_options)))
       = Some sample_stream
   \<and> calls (snd (stop_run (Returned ()) (Thrown (JsError ''cancel'')) (connected sample_options)))
       = [OnStateChange Connecting, OnStateChange Active,
          ConsoleError ''Error stopping subscription:'' (JsError ''cancel'')]"
  by (simp add: model_defs stop_run_def)

subsection \<open>C2: the array handed to \<^verbatim>\<open>onChange\<close>\<close>

text \<open>
  C2 holds of \<^verbatim>\<open>getMessages()\<close>, which copies (line 206), and fails for \<^verbatim>\<open>onChange\<close>,
  which is called with \<^verbatim>\<open>this.messages\<close> itself (lines 267-270). The manager below has an
  \<^verbatim>\<open>onChange\<close> that empties the array it is handed. After one accepted message the handler
  has been called with the buffer holding that message, and the manager's own buffer is
  empty. Overwriting the array that \<^verbatim>\<open>getMessages()\<close> returned, on a manager that holds
  the message, leaves the buffer as it was.
\<close>

theorem onChange_is_handed_the_live_array:
  "onChange_calls (calls (snd (readLoop_read (Returned (ReadValue (Message ''a'' 1)))
       (connected clearing_options))))
     = [(Message ''a'' 1, [Message ''a'' 1])]
   \<and> messages_now (snd (readLoop_read (Returned (ReadValue (Message ''a'' 1)))
       (connected clearing_options)))
     = []
   \<and> messages_now (snd (readLoop_read (Returned (ReadValue (Message ''a'' 1)))
       (connected sample_options)))
     = [Message ''a'' 1]
   \<and> messages_now
       (overwrite
          (fst (getMessages (snd (readLoop_read (Returned (ReadValue (Message ''a'' 1)))
             (connected sample_options)))))
          []
          (snd (getMessages (snd (readLoop_read (Returned (ReadValue (Message ''a'' 1)))
             (connected sample_options))))))
     = [Message ''a'' 1]"
  by (simp add: model_defs clearing_options_def messages_now_eq getMessages_def overwrite_def)

subsection \<open>Further properties\<close>

text \<open>
  \<^verbatim>\<open>stop()\<close>, the part of C1 that holds: \<^verbatim>\<open>stop()\<close> always completes, whatever the
  cancellations answer, and leaves \<^verbatim>\<open>isActive()\<close> false. When \<^verbatim>\<open>reader.cancel()\<close>,
  \<^verbatim>\<open>releaseLock()\<close> and \<^verbatim>\<open>subscription.cancel()\<close> succeed, it ends in state
  \<open>Closed\<close> with both handles cleared and \<^verbatim>\<open>onStop\<close>, if there is one, called once; a second
  \<^verbatim>\<open>stop()\<close> right after it completes in the same state.
\<close>

theorem stop_releases_when_cancels_succeed:
  assumes "case reader w of None \<Rightarrow> True | Some rd \<Rightarrow> releaseLock rd = Returned ()"
    and "r = stop_run (Returned ()) (Returned ()) w"
    and "r2 = stop_run (Returned ()) (Returned ()) (snd r)"
  shows "fst (stop_run rc sc w) = Completed \<and> \<not> isActive (snd (stop_run rc sc w))
    \<and> state (snd r) = Closed \<and> reader (snd r) = None \<and> subscription (snd r) = None
    \<and> onStop_calls (calls (snd r)) =
        onStop_calls (calls w) + (case onStop w of None \<Rightarrow> 0 | Some h \<Rightarrow> 1)
    \<and> fst r2 = Completed \<and> state (snd r2) = Closed \<and> reader (snd r2) = None
    \<and> subscription (snd r2) = None"
proof -
  have "case reader (snd r) of None \<Rightarrow> True | Some rd \<Rightarrow> releaseLock rd = Returned ()"
    using stop_run_clean(3) [OF assms(1)] assms(2) by simp
  from stop_run_clean [OF this] stop_run_clean [OF assms(1)] assms(2,3)
  show ?thesis
    by (simp add: stop_run_completes stop_run_not_running isActive_def)
qed

theorem stop_releases_when_cancels_succeed_witness:
  "state (snd (stop_run (Returned ()) (Returned ()) (connected sample_options))) = Closed
   \<and> reader (snd (stop_run (Returned ()) (Returned ()) (connected sample_options))) = None
   \<and> subscription (snd (stop_run (Returned ()) (Returned ()) (connected sample_options))) = None
   \<and> onStop_calls (calls (snd (stop_run (Returned ()) (Returned ()) (connected sample_options))))
       = 1
   \<and> onStop_calls (calls (connected sample_options)) = 0"
proof -
  have h: "case reader (connected sample_options) of None \<Rightarrow> True
      | Some rd \<Rightarrow> releaseLock rd = Returned ()"
    by (simp add: model_defs)
  have c: "onStop_calls (calls (connected sample_options)) = 0"
    "onStop (connected sample_options) = Some (Returned ())"
    by (simp_all add: model_defs)
  from stop_releases_when_cancels_succeed [OF h refl refl] c show ?thesis by simp
qed

text \<open>
  \<^verbatim>\<open>getMessages()\<close>, the part of C2 that holds: on a manager whose buffer is an allocated
  array, \<^verbatim>\<open>getMessages()\<close> returns a new array with the contents of the buffer, and
  whatever the caller writes into it, the buffer is as before.
\<close>

theorem getMessages_returns_a_copy:
  assumes "messages w < fresh w"
  shows "arrays (snd (getMessages w)) (fst (getMessages w)) = arrays w (messages w)
    \<and> fst (getMessages w) \<noteq> messages w
    \<and> messages (snd (getMessages w)) = messages w
    \<and> messages_now (overwrite (fst (getMessages w)) xs (snd (getMessages w))) = messages_now w"
  using assms by (auto simp: getMessages_def overwrite_def messages_now_eq)

theorem getMessages_returns_a_copy_witness:
  "messages (connected sample_options) < fresh (connected sample_options)
   \<and> messages_now (overwrite (fst (getMessages (connected sample_options)))
        [Message ''z'' 9] (snd (getMessages (connected sample_options)))) = []"
proof -
  have h: "messages (connected sample_options) < fresh (connected sample_options)"
    by (simp add: model_defs)
  have "messages_now (connected sample_options) = []"
    by (simp add: model_defs messages_now_eq)
  with getMessages_returns_a_copy [OF h, of "[Message ''z'' 9]"] h show ?thesis by simp
qed

text \<open>
  \<^verbatim>\<open>restart()\<close> empties the buffer: whatever the cancellations answer, once the
  \<^verbatim>\<open>stop()\<close> inside \<^verbatim>\<open>restart()\<close> has returned and \<^verbatim>\<open>start()\<close> has run to its first
  \<^verbatim>\<open>await\<close>, \<^verbatim>\<open>getMessages()\<close> is empty.
\<close>

theorem restart_empties_buffer:
  "messages_now (snd (restart_run rc sc w)) = []"
  by (rule restart_run_buffer)

theorem restart_empties_buffer_witness:
  "messages_now (snd (readLoop_read (Returned (ReadValue (Message ''a'' 1)))
       (connected sample_options))) = [Message ''a'' 1]
   \<and> messages_now (snd (restart_run (Returned ()) (Returned ())
       (snd (readLoop_read (Returned (ReadValue (Message ''a'' 1)))
          (connected sample_options))))) = []"
  using restart_empties_buffer
    [of "Returned ()" "Returned ()"
      "snd (readLoop_read (Returned (ReadValue (Message ''a'' 1))) (connected sample_options))"]
  by (simp add: model_defs messages_now_eq)

end
